theory Spec2Isabelle
  imports Main "HOL-Library.Word"
begin

unbundle bit_operations_syntax

section \<open>Python exceptions\<close>

text \<open>
  The engine functions of \<open>backend/app.py\<close> raise in three ways: \<open>ValueError\<close>
  (raised by \<open>mod_inverse\<close>, by \<open>scalar_multiply\<close> on a negative scalar and by
  the builtin \<open>pow\<close>), \<open>ZeroDivisionError\<close> (the operator \<open>%\<close> with modulus 0) and
  \<open>TypeError\<close> (subscripting \<open>None\<close>). A raising call is the left injection of a sum;
  none of the engine functions catches an exception.
\<close>

datatype py_error = ValueError | ZeroDivisionError | TypeError

section \<open>Mathematical utilities\<close>

text \<open>
  \<open>extended_gcd(a, b)\<close>: Python's \<open>%\<close> and \<open>//\<close> on integers are floor modulus and
  floor division, which is what \<open>mod\<close> and \<open>div\<close> are on \<^typ>\<open>int\<close>; the only call
  with divisor 0 is excluded by the test \<open>a == 0\<close>.
\<close>

function extended_gcd :: "int \<Rightarrow> int \<Rightarrow> int \<times> int \<times> int" where
  "extended_gcd a b =
     (if a = 0 then (b, 0, 1)
      else (case extended_gcd (b mod a) a of
              (g, x1, y1) \<Rightarrow> (g, y1 - (b div a) * x1, x1)))"
  by pat_completeness auto
termination
  by (relation "measure (\<lambda>(a, b). nat \<bar>a\<bar>)") (auto simp: abs_mod_less)

declare extended_gcd.simps [simp del]

text \<open>
  \<open>mod_inverse(a, m)\<close>: \<open>a % m\<close> raises \<open>ZeroDivisionError\<close> when \<open>m = 0\<close>; the
  explicit \<open>raise ValueError\<close> is taken when the first component is not 1.
\<close>

definition mod_inverse :: "int \<Rightarrow> int \<Rightarrow> py_error + int" where
  "mod_inverse a m =
     (if m = 0 then Inl ZeroDivisionError
      else (case extended_gcd (a mod m) m of
              (g, x, y) \<Rightarrow> if g \<noteq> 1 then Inl ValueError else Inr ((x mod m + m) mod m)))"

text \<open>
  \<open>pow_mod(base, exp, mod)\<close> is the builtin \<open>pow\<close> with three integer arguments: it
  raises \<open>ValueError\<close> for modulus 0; for a negative exponent it inverts the base modulo
  the modulus first (\<open>ValueError\<close> when there is no inverse); the result has the sign of the
  modulus, as \<open>%\<close> has.
\<close>

definition pow_mod :: "int \<Rightarrow> int \<Rightarrow> int \<Rightarrow> py_error + int" where
  "pow_mod base exp md =
     (if md = 0 then Inl ValueError
      else if 0 \<le> exp then Inr (base ^ nat exp mod md)
      else (case find (\<lambda>i. (base * i) mod \<bar>md\<bar> = 1 mod \<bar>md\<bar>) [0..\<bar>md\<bar> - 1] of
              None \<Rightarrow> Inl ValueError
            | Some i \<Rightarrow> Inr (i ^ nat (- exp) mod md)))"

subsection \<open>SHA-256\<close>

text \<open>
  \<open>hash_message\<close> is \<open>int(hashlib.sha256(message.encode()).hexdigest(), 16)\<close>: the
  SHA-256 digest of the message bytes, read as a big-endian number. The digest is the
  standard one (FIPS 180-4) on 32-bit words; a message is given here by its encoded bytes,
  one \<^typ>\<open>char\<close> per byte.
\<close>

type_synonym w32 = "32 word"

definition rotr :: "nat \<Rightarrow> w32 \<Rightarrow> w32" where
  "rotr n x = (drop_bit n x) OR (push_bit (32 - n) x)"

definition Ch :: "w32 \<Rightarrow> w32 \<Rightarrow> w32 \<Rightarrow> w32" where
  "Ch x y z = (x AND y) XOR (NOT x AND z)"

definition Maj :: "w32 \<Rightarrow> w32 \<Rightarrow> w32 \<Rightarrow> w32" where
  "Maj x y z = (x AND y) XOR (x AND z) XOR (y AND z)"

definition Sigma0 :: "w32 \<Rightarrow> w32" where
  "Sigma0 x = rotr 2 x XOR rotr 13 x XOR rotr 22 x"

definition Sigma1 :: "w32 \<Rightarrow> w32" where
  "Sigma1 x = rotr 6 x XOR rotr 11 x XOR rotr 25 x"

definition sigma0 :: "w32 \<Rightarrow> w32" where
  "sigma0 x = rotr 7 x XOR rotr 18 x XOR drop_bit 3 x"

definition sigma1 :: "w32 \<Rightarrow> w32" where
  "sigma1 x = rotr 17 x XOR rotr 19 x XOR drop_bit 10 x"

text \<open>The round constants and the initial hash value, in decimal.\<close>

definition K256 :: "w32 list" where
  "K256 = [
     1116352408, 1899447441, 3049323471, 3921009573,
     961987163, 1508970993, 2453635748, 2870763221,
     3624381080, 310598401, 607225278, 1426881987,
     1925078388, 2162078206, 2614888103, 3248222580,
     3835390401, 4022224774, 264347078, 604807628,
     770255983, 1249150122, 1555081692, 1996064986,
     2554220882, 2821834349, 2952996808, 3210313671,
     3336571891, 3584528711, 113926993, 338241895,
     666307205, 773529912, 1294757372, 1396182291,
     1695183700, 1986661051, 2177026350, 2456956037,
     2730485921, 2820302411, 3259730800, 3345764771,
     3516065817, 3600352804, 4094571909, 275423344,
     430227734, 506948616, 659060556, 883997877,
     958139571, 1322822218, 1537002063, 1747873779,
     1955562222, 2024104815, 2227730452, 2361852424,
     2428436474, 2756734187, 3204031479, 3329325298]"

definition H256 :: "w32 list" where
  "H256 = [
     1779033703, 3144134277, 1013904242, 2773480762,
     1359893119, 2600822924, 528734635, 1541459225]"

definition be_bytes :: "nat \<Rightarrow> int \<Rightarrow> int list" where
  "be_bytes n v = map (\<lambda>i. (v div 256 ^ (n - 1 - i)) mod 256) [0..<n]"

text \<open>Padding: the byte 0x80, zero bytes up to 56 modulo 64, the bit length on 8 bytes.\<close>

definition pad :: "int list \<Rightarrow> int list" where
  "pad bs = bs @ [128] @ replicate ((119 - length bs mod 64) mod 64) 0
              @ be_bytes 8 (8 * int (length bs))"

fun be_words :: "int list \<Rightarrow> w32 list" where
  "be_words (b0 # b1 # b2 # b3 # bs) =
     of_int (((b0 * 256 + b1) * 256 + b2) * 256 + b3) # be_words bs"
| "be_words _ = []"

fun blocks :: "w32 list \<Rightarrow> w32 list list" where
  "blocks ws = (if length ws < 16 then [] else take 16 ws # blocks (drop 16 ws))"

declare blocks.simps [simp del]

text \<open>The message schedule, built with the most recent word first.\<close>

fun extend :: "nat \<Rightarrow> w32 list \<Rightarrow> w32 list" where
  "extend 0 ws = ws"
| "extend (Suc n) ws =
     extend n ((sigma1 (ws ! 1) + ws ! 6 + sigma0 (ws ! 14) + ws ! 15) # ws)"

definition schedule :: "w32 list \<Rightarrow> w32 list" where
  "schedule blk = rev (extend 48 (rev blk))"

fun sha_round :: "w32 list \<Rightarrow> w32 \<times> w32 \<Rightarrow> w32 list" where
  "sha_round [a, b, c, d, e, f, g, h] (k, w) =
     (let t1 = h + Sigma1 e + Ch e f g + k + w;
          t2 = Sigma0 a + Maj a b c
      in [t1 + t2, a, b, c, d + t1, e, f, g])"
| "sha_round st _ = st"

definition compress :: "w32 list \<Rightarrow> w32 list \<Rightarrow> w32 list" where
  "compress st blk = map2 (+) st (foldl sha_round st (zip K256 (schedule blk)))"

definition sha256 :: "int list \<Rightarrow> w32 list" where
  "sha256 bs = foldl compress H256 (blocks (be_words (pad bs)))"

definition digest_int :: "w32 list \<Rightarrow> int" where
  "digest_int ws = foldl (\<lambda>acc w. acc * 2 ^ 32 + uint w) 0 ws"

definition hash_message :: "string \<Rightarrow> int" where
  "hash_message message = digest_int (sha256 (map of_char message))"

section \<open>Trace records and results\<close>

text \<open>
  A point is a pair of integers, or \<open>None\<close> for the point at infinity, as in the source.
\<close>

type_synonym point = "(int \<times> int) option"

text \<open>
  The records that \<open>scalar_multiply\<close> emits with \<open>show_steps=True\<close>: the opening
  record with the scalar and its binary digits, then for the bit of iteration \<open>i\<close> either
  an \<open>Add\<close> record (the point added and the new accumulator) or a \<open>Skip\<close> record.
\<close>

datatype mult_step =
    Info int string
  | AddStep nat point point
  | SkipStep nat

text \<open>
  A record of the step list of a sign or verify call: the \<open>step\<close> number, the
  \<open>result\<close> and the further numeric entries. The text entries of the source's
  dictionaries (title, formula, substitution, explanation) are constants or renderings of
  these numbers and are not modelled.
\<close>

datatype step_result = NoResult | IntResult int | PointResult point | Verdict bool

datatype extra =
    HashFull int
  | Intermediate "int list"
  | ScalarMultiplicationSteps "mult_step list"
  | TotalOperations nat
  | VerificationValue int
  | ExpectedValue int

record trace_step =
  step :: nat
  result :: step_result
  extras :: "extra list"

text \<open>
  The error dictionaries \<open>{'error': ..., 'steps': ...}\<close>, one constructor for each
  message of the source:
  \<^item> \<open>RZero\<close>: "Invalid signature: r = 0. Choose a different k."
  \<^item> \<open>SZero\<close>: "Invalid signature: s = 0. Choose a different k."
  \<^item> \<open>GeneratorNotOnCurve Gx Gy\<close>: "Generator point G=(Gx, Gy) is not on the curve ..."
  \<^item> \<open>PublicKeyNotOnCurve Qx Qy\<close>: "Public key point Q=(Qx, Qy) is not on the curve"
  \<^item> \<open>NonceAtInfinity\<close>: "Invalid nonce: k x G resulted in point at infinity"
  \<^item> \<open>U1GAtInfinity\<close>, \<open>U2QAtInfinity\<close>, \<open>SumAtInfinity\<close>: "... resulted in point at
    infinity" for \<open>u1 x G\<close>, \<open>u2 x Q\<close> and their sum.
\<close>

datatype engine_error =
    RZero
  | SZero
  | GeneratorNotOnCurve int int
  | PublicKeyNotOnCurve int int
  | NonceAtInfinity
  | U1GAtInfinity
  | U2QAtInfinity
  | SumAtInfinity

text \<open>
  What a sign call returns: the error dictionary with the steps so far, or the success
  dictionary with the signature \<open>(r, s)\<close>, the public key and all the steps.
\<close>

datatype 'k sign_result =
    SignFailure engine_error "trace_step list"
  | SignSuccess "int \<times> int" 'k "trace_step list"

text \<open>
  What a verify call returns; on success the flag \<open>valid\<close>, the verification value,
  the expected value and the steps.
\<close>

datatype verify_result =
    VerifyFailure engine_error "trace_step list"
  | VerifySuccess bool int int "trace_step list"

fun sign_succeeded :: "'k sign_result \<Rightarrow> bool" where
  "sign_succeeded (SignFailure e st) = False"
| "sign_succeeded (SignSuccess sg k st) = True"

fun verify_succeeded :: "verify_result \<Rightarrow> bool" where
  "verify_succeeded (VerifyFailure e st) = False"
| "verify_succeeded (VerifySuccess valid v r st) = True"

section \<open>DSA, educational mode\<close>

text \<open>
  \<open>dsa_educational_sign\<close>, with the fields of \<open>params\<close> already converted by \<open>int\<close>.
  Between step 2 and step 4 the source computes \<open>r\<close> and tests it, and appends nothing.
\<close>

definition dsa_educational_sign ::
  "int \<Rightarrow> int \<Rightarrow> int \<Rightarrow> int \<Rightarrow> int \<Rightarrow> string \<Rightarrow> py_error + int sign_result" where
  "dsa_educational_sign p q g x k message =
     (case pow_mod g x p of Inl e \<Rightarrow> Inl e | Inr y \<Rightarrow>
      let steps1 = [\<lparr>step = 1, result = IntResult y, extras = []\<rparr>];
          h = hash_message message
      in if q = 0 then Inl ZeroDivisionError else
      let h_mod_q = h mod q;
          steps2 = steps1 @ [\<lparr>step = 2, result = IntResult h_mod_q, extras = [HashFull h]\<rparr>]
      in case pow_mod g k p of Inl e \<Rightarrow> Inl e | Inr g_k_mod_p \<Rightarrow>
      let r = g_k_mod_p mod q
      in if r = 0 then Inr (SignFailure RZero steps2) else
      case mod_inverse k q of Inl e \<Rightarrow> Inl e | Inr k_inv \<Rightarrow>
      let steps4 = steps2 @ [\<lparr>step = 4, result = IntResult k_inv, extras = []\<rparr>];
          xr = (x * r) mod q;
          h_plus_xr = (h_mod_q + xr) mod q;
          s = (k_inv * h_plus_xr) mod q;
          steps5 = steps4 @ [\<lparr>step = 5, result = IntResult s,
                                extras = [Intermediate [xr, h_plus_xr, s]]\<rparr>]
      in if s = 0 then Inr (SignFailure SZero steps5)
         else Inr (SignSuccess (r, s) y steps5))"

text \<open>
  \<open>dsa_educational_verify\<close>: six records, and no error dictionary; \<open>mod_inverse\<close> and
  \<open>pow\<close> may raise.
\<close>

definition dsa_educational_verify ::
  "int \<Rightarrow> int \<Rightarrow> int \<Rightarrow> int \<Rightarrow> int \<Rightarrow> int \<Rightarrow> string \<Rightarrow> py_error + verify_result" where
  "dsa_educational_verify p q g y r s message =
     (let h = hash_message message
      in if q = 0 then Inl ZeroDivisionError else
      let h_mod_q = h mod q;
          steps1 = [\<lparr>step = 1, result = IntResult h_mod_q, extras = [HashFull h]\<rparr>]
      in case mod_inverse s q of Inl e \<Rightarrow> Inl e | Inr w \<Rightarrow>
      let steps2 = steps1 @ [\<lparr>step = 2, result = IntResult w, extras = []\<rparr>];
          u1 = (h_mod_q * w) mod q;
          steps3 = steps2 @ [\<lparr>step = 3, result = IntResult u1, extras = []\<rparr>];
          u2 = (r * w) mod q;
          steps4 = steps3 @ [\<lparr>step = 4, result = IntResult u2, extras = []\<rparr>]
      in case pow_mod g u1 p of Inl e \<Rightarrow> Inl e | Inr g_u1 \<Rightarrow>
      case pow_mod y u2 p of Inl e \<Rightarrow> Inl e | Inr y_u2 \<Rightarrow>
      let g_y_product = (g_u1 * y_u2) mod p;
          v = g_y_product mod q;
          steps5 = steps4 @ [\<lparr>step = 5, result = IntResult v,
                                extras = [Intermediate [g_u1, y_u2, g_y_product, v]]\<rparr>];
          is_valid = (v = r);
          steps6 = steps5 @ [\<lparr>step = 6, result = Verdict is_valid, extras = []\<rparr>]
      in Inr (VerifySuccess is_valid v r steps6))"

text \<open>
  The routes \<open>/api/dsa/educational/sign\<close> and \<open>/api/dsa/educational/verify\<close>: the
  call is wrapped in \<open>try\<close>; an exception becomes the body \<open>{'error': str(e)}\<close> with
  status 400, which has no \<open>steps\<close>; an error dictionary is sent with status 400 and a
  success dictionary with status 200.
\<close>

datatype 'r api_response = Body nat 'r | ErrorOnly nat py_error

definition api_dsa_educational_sign ::
  "int \<Rightarrow> int \<Rightarrow> int \<Rightarrow> int \<Rightarrow> int \<Rightarrow> string \<Rightarrow> int sign_result api_response" where
  "api_dsa_educational_sign p q g x k message =
     (case dsa_educational_sign p q g x k message of
        Inl e \<Rightarrow> ErrorOnly 400 e
      | Inr res \<Rightarrow> if sign_succeeded res then Body 200 res else Body 400 res)"

definition api_dsa_educational_verify ::
  "int \<Rightarrow> int \<Rightarrow> int \<Rightarrow> int \<Rightarrow> int \<Rightarrow> int \<Rightarrow> string \<Rightarrow> verify_result api_response" where
  "api_dsa_educational_verify p q g y r s message =
     (case dsa_educational_verify p q g y r s message of
        Inl e \<Rightarrow> ErrorOnly 400 e
      | Inr res \<Rightarrow> if verify_succeeded res then Body 200 res else Body 400 res)"

section \<open>Elliptic curves\<close>

record EllipticCurve =
  curve_a :: int
  curve_b :: int
  curve_p :: int

definition is_on_curve :: "EllipticCurve \<Rightarrow> point \<Rightarrow> py_error + bool" where
  "is_on_curve cv pt =
     (case pt of
        None \<Rightarrow> Inr True
      | Some (x, y) \<Rightarrow>
          if curve_p cv = 0 then Inl ZeroDivisionError
          else Inr ((y * y - (x ^ 3 + curve_a cv * x + curve_b cv)) mod curve_p cv = 0))"

text \<open>
  The two branches of \<open>point_add\<close> that compute a slope: \<open>slope_operands\<close> gives the
  numerator and the denominator that the branch hands to \<open>mod_inverse\<close>, and \<open>None\<close>
  where the branch returns the point at infinity before any inversion (\<open>y1 == 0\<close> when
  doubling, \<open>x1 == x2\<close> when adding).
\<close>

definition slope_operands ::
  "EllipticCurve \<Rightarrow> int \<times> int \<Rightarrow> int \<times> int \<Rightarrow> (int \<times> int) option" where
  "slope_operands cv P Q =
     (case (P, Q) of ((x1, y1), (x2, y2)) \<Rightarrow>
        if P = Q then
          (if y1 = 0 then None
           else Some ((3 * x1 * x1 + curve_a cv) mod curve_p cv, (2 * y1) mod curve_p cv))
        else
          (if x1 = x2 then None
           else Some ((y2 - y1) mod curve_p cv, (x2 - x1) mod curve_p cv)))"

text \<open>
  \<open>point_add\<close>: the first \<open>%\<close> of a slope branch raises \<open>ZeroDivisionError\<close> when the
  modulus is 0; \<open>mod_inverse\<close> may raise \<open>ValueError\<close>.
\<close>

definition point_add :: "EllipticCurve \<Rightarrow> point \<Rightarrow> point \<Rightarrow> py_error + point" where
  "point_add cv P Q =
     (case P of None \<Rightarrow> Inr Q | Some (x1, y1) \<Rightarrow>
      case Q of None \<Rightarrow> Inr P | Some (x2, y2) \<Rightarrow>
      case slope_operands cv (x1, y1) (x2, y2) of
        None \<Rightarrow> Inr None
      | Some (numerator, denominator) \<Rightarrow>
          if curve_p cv = 0 then Inl ZeroDivisionError
          else case mod_inverse denominator (curve_p cv) of
                 Inl e \<Rightarrow> Inl e
               | Inr d_inv \<Rightarrow>
                   let lam = (numerator * d_inv) mod curve_p cv;
                       x3 = (lam * lam - x1 - x2) mod curve_p cv;
                       y3 = (lam * (x1 - x3) - y1) mod curve_p cv
                   in Inr (Some (x3, y3)))"

text \<open>\<open>bin(k)[2:]\<close> for a positive \<open>k\<close>: the binary digits, most significant first.\<close>

function binary_digits :: "nat \<Rightarrow> string" where
  "binary_digits n =
     (if n < 2 then [if n = 0 then CHR ''0'' else CHR ''1'']
      else binary_digits (n div 2) @ [if n mod 2 = 0 then CHR ''0'' else CHR ''1''])"
  by pat_completeness auto
termination
  by (relation "measure id") auto

declare binary_digits.simps [simp del]

text \<open>
  The loop \<open>for i, bit in enumerate(reversed(binary))\<close> of \<open>scalar_multiply\<close> with
  \<open>show_steps=True\<close>: \<open>len\<close> is \<open>len(binary)\<close>, \<open>digit\<close> the loop variable \<open>bit\<close>.
\<close>

fun double_and_add ::
  "EllipticCurve \<Rightarrow> nat \<Rightarrow> nat \<Rightarrow> string \<Rightarrow> point \<Rightarrow> point \<Rightarrow> mult_step list
     \<Rightarrow> py_error + (point \<times> mult_step list)" where
  "double_and_add cv len i [] res temp steps = Inr (res, steps)"
| "double_and_add cv len i (digit # digits) res temp steps =
     (case (if digit = CHR ''1'' then point_add cv res temp else Inr res) of
        Inl e \<Rightarrow> Inl e
      | Inr res' \<Rightarrow>
          let steps' = (if digit = CHR ''1'' then steps @ [AddStep i temp res'] else steps)
          in if i < len - 1 then
               (case point_add cv temp temp of
                  Inl e \<Rightarrow> Inl e
                | Inr temp' \<Rightarrow>
                    double_and_add cv len (Suc i) digits res' temp'
                      (if digit = CHR ''0'' then steps' @ [SkipStep i] else steps'))
             else double_and_add cv len (Suc i) digits res' temp steps')"

definition scalar_multiply_steps ::
  "EllipticCurve \<Rightarrow> int \<Rightarrow> point \<Rightarrow> py_error + (point \<times> mult_step list)" where
  "scalar_multiply_steps cv k P =
     (if k = 0 \<or> P = None then Inr (None, [])
      else if k < 0 then Inl ValueError
      else let binary = binary_digits (nat k)
           in double_and_add cv (length binary) 0 (rev binary) None P [Info k binary])"

text \<open>\<open>scalar_multiply\<close> with \<open>show_steps=False\<close> runs the same loop and returns the point.\<close>

definition scalar_multiply :: "EllipticCurve \<Rightarrow> int \<Rightarrow> point \<Rightarrow> py_error + point" where
  "scalar_multiply cv k P =
     (case scalar_multiply_steps cv k P of Inl e \<Rightarrow> Inl e | Inr (res, steps) \<Rightarrow> Inr res)"

section \<open>ECDSA, educational mode\<close>

text \<open>The slice \<open>steps[:5] if len(steps) > 5 else steps\<close>.\<close>

definition first_five :: "mult_step list \<Rightarrow> mult_step list" where
  "first_five steps = (if length steps > 5 then take 5 steps else steps)"

text \<open>
  \<open>ecdsa_educational_sign\<close>. Between step 3 and step 5 the source computes \<open>r\<close> and
  tests it, and appends nothing. The success dictionary reads \<open>Q[0]\<close> and \<open>Q[1]\<close>,
  which raises \<open>TypeError\<close> when \<open>Q\<close> is \<open>None\<close>.
\<close>

definition ecdsa_educational_sign ::
  "int \<Rightarrow> int \<Rightarrow> int \<Rightarrow> int \<Rightarrow> int \<Rightarrow> int \<Rightarrow> int \<Rightarrow> int \<Rightarrow> string
     \<Rightarrow> py_error + (int \<times> int) sign_result" where
  "ecdsa_educational_sign a b p Gx Gy n d k message =
     (let curve = \<lparr>curve_a = a, curve_b = b, curve_p = p\<rparr>;
          G = Some (Gx, Gy)
      in case is_on_curve curve G of Inl e \<Rightarrow> Inl e | Inr on_curve \<Rightarrow>
      if \<not> on_curve then Inr (SignFailure (GeneratorNotOnCurve Gx Gy) []) else
      let steps0 = [\<lparr>step = 0, result = NoResult, extras = []\<rparr>]
      in case scalar_multiply_steps curve d G of Inl e \<Rightarrow> Inl e | Inr (Q, mult_steps) \<Rightarrow>
      let steps1 = steps0 @ [\<lparr>step = 1, result = PointResult Q,
                extras = [ScalarMultiplicationSteps (first_five mult_steps),
                          TotalOperations (length mult_steps)]\<rparr>];
          h = hash_message message
      in if n = 0 then Inl ZeroDivisionError else
      let e = h mod n;
          steps2 = steps1 @ [\<lparr>step = 2, result = IntResult e, extras = [HashFull h]\<rparr>]
      in case scalar_multiply_steps curve k G of Inl e \<Rightarrow> Inl e | Inr (kG, kG_steps) \<Rightarrow>
      case kG of None \<Rightarrow> Inr (SignFailure NonceAtInfinity steps2) | Some (x1, y1) \<Rightarrow>
      let steps3 = steps2 @ [\<lparr>step = 3, result = PointResult kG,
                extras = [ScalarMultiplicationSteps (first_five kG_steps)]\<rparr>];
          r = x1 mod n
      in if r = 0 then Inr (SignFailure RZero steps3) else
      case mod_inverse k n of Inl e \<Rightarrow> Inl e | Inr k_inv \<Rightarrow>
      let steps5 = steps3 @ [\<lparr>step = 5, result = IntResult k_inv, extras = []\<rparr>];
          dr = (d * r) mod n;
          e_plus_dr = (e + dr) mod n;
          s = (k_inv * e_plus_dr) mod n;
          steps6 = steps5 @ [\<lparr>step = 6, result = IntResult s,
                                extras = [Intermediate [dr, e_plus_dr, s]]\<rparr>]
      in if s = 0 then Inr (SignFailure SZero steps6)
         else case Q of None \<Rightarrow> Inl TypeError
              | Some (Qx, Qy) \<Rightarrow> Inr (SignSuccess (r, s) (Qx, Qy) steps6))"

definition ecdsa_educational_verify ::
  "int \<Rightarrow> int \<Rightarrow> int \<Rightarrow> int \<Rightarrow> int \<Rightarrow> int \<Rightarrow> int \<Rightarrow> int \<Rightarrow> int \<Rightarrow> int \<Rightarrow> string
     \<Rightarrow> py_error + verify_result" where
  "ecdsa_educational_verify a b p Gx Gy n Qx Qy r s message =
     (let curve = \<lparr>curve_a = a, curve_b = b, curve_p = p\<rparr>;
          G = Some (Gx, Gy);
          Q = Some (Qx, Qy)
      in case is_on_curve curve G of Inl e \<Rightarrow> Inl e | Inr G_on_curve \<Rightarrow>
      if \<not> G_on_curve then Inr (VerifyFailure (GeneratorNotOnCurve Gx Gy) []) else
      case is_on_curve curve Q of Inl e \<Rightarrow> Inl e | Inr Q_on_curve \<Rightarrow>
      if \<not> Q_on_curve then Inr (VerifyFailure (PublicKeyNotOnCurve Qx Qy) []) else
      let steps0 = [\<lparr>step = 0, result = NoResult, extras = []\<rparr>];
          h = hash_message message
      in if n = 0 then Inl ZeroDivisionError else
      let e = h mod n;
          steps1 = steps0 @ [\<lparr>step = 1, result = IntResult e, extras = [HashFull h]\<rparr>]
      in case mod_inverse s n of Inl e \<Rightarrow> Inl e | Inr w \<Rightarrow>
      let steps2 = steps1 @ [\<lparr>step = 2, result = IntResult w, extras = []\<rparr>];
          u1 = (e * w) mod n;
          steps3 = steps2 @ [\<lparr>step = 3, result = IntResult u1, extras = []\<rparr>];
          u2 = (r * w) mod n;
          steps4 = steps3 @ [\<lparr>step = 4, result = IntResult u2, extras = []\<rparr>]
      in case scalar_multiply_steps curve u1 G of Inl e \<Rightarrow> Inl e | Inr (u1G, u1G_steps) \<Rightarrow>
      if u1G = None then Inr (VerifyFailure U1GAtInfinity steps4) else
      let steps5 = steps4 @ [\<lparr>step = 5, result = PointResult u1G,
                extras = [ScalarMultiplicationSteps (first_five u1G_steps)]\<rparr>]
      in case scalar_multiply_steps curve u2 Q of Inl e \<Rightarrow> Inl e | Inr (u2Q, u2Q_steps) \<Rightarrow>
      if u2Q = None then Inr (VerifyFailure U2QAtInfinity steps5) else
      let steps6 = steps5 @ [\<lparr>step = 6, result = PointResult u2Q,
                extras = [ScalarMultiplicationSteps (first_five u2Q_steps)]\<rparr>]
      in case point_add curve u1G u2Q of Inl e \<Rightarrow> Inl e | Inr verification_point \<Rightarrow>
      case verification_point of
        None \<Rightarrow> Inr (VerifyFailure SumAtInfinity steps6)
      | Some (vx, vy) \<Rightarrow>
      let steps7 = steps6 @ [\<lparr>step = 7, result = PointResult verification_point, extras = []\<rparr>];
          v = vx mod n;
          is_valid = (v = r);
          steps8 = steps7 @ [\<lparr>step = 8, result = Verdict is_valid,
                                extras = [VerificationValue v, ExpectedValue r]\<rparr>]
      in Inr (VerifySuccess is_valid v r steps8))"

text \<open>
  The routes \<open>/api/ecdsa/educational/sign\<close> and \<open>/api/ecdsa/educational/verify\<close>,
  written as the two DSA routes are.
\<close>

definition api_ecdsa_educational_sign ::
  "int \<Rightarrow> int \<Rightarrow> int \<Rightarrow> int \<Rightarrow> int \<Rightarrow> int \<Rightarrow> int \<Rightarrow> int \<Rightarrow> string
     \<Rightarrow> (int \<times> int) sign_result api_response" where
  "api_ecdsa_educational_sign a b p Gx Gy n d k message =
     (case ecdsa_educational_sign a b p Gx Gy n d k message of
        Inl e \<Rightarrow> ErrorOnly 400 e
      | Inr res \<Rightarrow> if sign_succeeded res then Body 200 res else Body 400 res)"

definition api_ecdsa_educational_verify ::
  "int \<Rightarrow> int \<Rightarrow> int \<Rightarrow> int \<Rightarrow> int \<Rightarrow> int \<Rightarrow> int \<Rightarrow> int \<Rightarrow> int \<Rightarrow> int \<Rightarrow> string
     \<Rightarrow> verify_result api_response" where
  "api_ecdsa_educational_verify a b p Gx Gy n Qx Qy r s message =
     (case ecdsa_educational_verify a b p Gx Gy n Qx Qy r s message of
        Inl e \<Rightarrow> ErrorOnly 400 e
      | Inr res \<Rightarrow> if verify_succeeded res then Body 200 res else Body 400 res)"

section \<open>Predicates of the statements\<close>

text \<open>An odd prime, by trial division.\<close>

definition odd_prime :: "int \<Rightarrow> bool" where
  "odd_prime p \<longleftrightarrow> 2 < p \<and> (\<forall>d \<in> {2..<p}. \<not> d dvd p)"

text \<open>
  A point of the curve as the data model has it: the point at infinity, or a pair of
  coordinates in \<open>[0, p)\<close> that satisfies the curve equation.
\<close>

definition in_range :: "EllipticCurve \<Rightarrow> point \<Rightarrow> bool" where
  "in_range cv pt =
     (case pt of None \<Rightarrow> True
      | Some (x, y) \<Rightarrow> 0 \<le> x \<and> x < curve_p cv \<and> 0 \<le> y \<and> y < curve_p cv)"

definition curve_point :: "EllipticCurve \<Rightarrow> point \<Rightarrow> bool" where
  "curve_point cv pt \<longleftrightarrow> in_range cv pt \<and> is_on_curve cv pt = Inr True"

text \<open>Whether a sign call returned its success dictionary.\<close>

definition returns_signature :: "py_error + 'k sign_result \<Rightarrow> bool" where
  "returns_signature outcome =
     (case outcome of Inl e \<Rightarrow> False | Inr res \<Rightarrow> sign_succeeded res)"

section \<open>Properties of the extended Euclidean algorithm\<close>

lemma extended_gcd_zero: "extended_gcd 0 b = (b, 0, 1)"
  by (simp add: extended_gcd.simps)

lemma extended_gcd_bezout: "extended_gcd a b = (g, x, y) \<Longrightarrow> a * x + b * y = g"
proof (induction a b arbitrary: g x y rule: extended_gcd.induct)
  case (1 a b)
  show ?case
  proof (cases "a = 0")
    case True
    with "1.prems" show ?thesis by (simp add: extended_gcd.simps)
  next
    case False
    obtain g' x1 y1 where rec: "extended_gcd (b mod a) a = (g', x1, y1)"
      by (cases "extended_gcd (b mod a) a") auto
    from "1.IH" [OF False rec] have ih: "(b mod a) * x1 + a * y1 = g'" .
    from False rec have "extended_gcd a b = (g', y1 - (b div a) * x1, x1)"
      by (simp add: extended_gcd.simps [of a b])
    with "1.prems" have eqs: "g = g'" "x = y1 - (b div a) * x1" "y = x1"
      by auto
    have "a * (y1 - (b div a) * x1) + b * x1 = (b - a * (b div a)) * x1 + a * y1"
      by (simp add: algebra_simps)
    also have "b - a * (b div a) = b mod a"
      by (simp add: minus_mult_div_eq_mod)
    finally show ?thesis using ih eqs by simp
  qed
qed

lemma extended_gcd_abs: "extended_gcd a b = (g, x, y) \<Longrightarrow> \<bar>g\<bar> = gcd a b"
proof (induction a b arbitrary: g x y rule: extended_gcd.induct)
  case (1 a b)
  show ?case
  proof (cases "a = 0")
    case True
    with "1.prems" show ?thesis by (simp add: extended_gcd.simps)
  next
    case False
    obtain g' x1 y1 where rec: "extended_gcd (b mod a) a = (g', x1, y1)"
      by (cases "extended_gcd (b mod a) a") auto
    from "1.IH" [OF False rec] have ih: "\<bar>g'\<bar> = gcd (b mod a) a" .
    from "1.prems" False rec have "g = g'"
      by (simp add: extended_gcd.simps [of a b])
    moreover have "gcd (b mod a) a = gcd a b"
      using gcd_red_int [of b a] by (simp add: gcd.commute)
    ultimately show ?thesis using ih by simp
  qed
qed

lemma extended_gcd_sign_pos: "0 < a \<Longrightarrow> extended_gcd a b = (g, x, y) \<Longrightarrow> 0 < g"
proof (induction a b arbitrary: g x y rule: extended_gcd.induct)
  case (1 a b)
  from "1.prems" have nz: "a \<noteq> 0" by simp
  obtain g' x1 y1 where rec: "extended_gcd (b mod a) a = (g', x1, y1)"
    by (cases "extended_gcd (b mod a) a") auto
  from "1.prems" nz rec have gg: "g = g'"
    by (simp add: extended_gcd.simps [of a b])
  show ?case
  proof (cases "b mod a = 0")
    case True
    with rec have "g' = a" by (simp add: extended_gcd.simps)
    with gg "1.prems" show ?thesis by simp
  next
    case False
    moreover have "0 \<le> b mod a" using "1.prems" by simp
    ultimately have "0 < b mod a" by simp
    from "1.IH" [OF nz this rec] gg show ?thesis by simp
  qed
qed

lemma extended_gcd_sign_neg: "a < 0 \<Longrightarrow> extended_gcd a b = (g, x, y) \<Longrightarrow> g < 0"
proof (induction a b arbitrary: g x y rule: extended_gcd.induct)
  case (1 a b)
  from "1.prems" have nz: "a \<noteq> 0" by simp
  obtain g' x1 y1 where rec: "extended_gcd (b mod a) a = (g', x1, y1)"
    by (cases "extended_gcd (b mod a) a") auto
  from "1.prems" nz rec have gg: "g = g'"
    by (simp add: extended_gcd.simps [of a b])
  show ?case
  proof (cases "b mod a = 0")
    case True
    with rec have "g' = a" by (simp add: extended_gcd.simps)
    with gg "1.prems" show ?thesis by simp
  next
    case False
    moreover have "b mod a \<le> 0" using "1.prems" by simp
    ultimately have "b mod a < 0" by simp
    from "1.IH" [OF nz this rec] gg show ?thesis by simp
  qed
qed


section \<open>Properties of the modular inverse\<close>


lemma mod_inverse_Inr:
  assumes "1 < m" "mod_inverse a m = Inr x"
  shows "0 \<le> x \<and> x < m \<and> (a * x) mod m = 1 \<and> gcd (a mod m) m = 1"
proof -
  obtain g u v where e: "extended_gcd (a mod m) m = (g, u, v)"
    by (cases "extended_gcd (a mod m) m") auto
  from assms e have g1: "g = 1" and xu: "x = (u mod m + m) mod m"
    by (auto simp: mod_inverse_def split: if_splits)
  from extended_gcd_bezout [OF e] g1 have bez: "(a mod m) * u + m * v = 1" by simp
  from extended_gcd_abs [OF e] g1 have cop: "gcd (a mod m) m = 1" by simp
  from xu have xm: "x = u mod m" by simp
  have "(a * x) mod m = ((a mod m) * u) mod m"
    by (simp add: xm mod_simps)
  also have "(a mod m) * u = 1 - m * v" using bez by simp
  also have "(1 - m * v) mod m = 1 mod m"
    by (metis diff_conv_add_uminus mod_mult_self2 mult_minus_right)
  also have "1 mod m = 1" using assms(1) by simp
  finally show ?thesis using xm assms(1) cop by simp
qed

lemma mod_inverse_Inl:
  assumes "1 < m"
  shows "mod_inverse a m = Inl e \<longleftrightarrow> e = ValueError \<and> gcd (a mod m) m \<noteq> 1"
proof -
  obtain g u v where e: "extended_gcd (a mod m) m = (g, u, v)"
    by (cases "extended_gcd (a mod m) m") auto
  have ge: "0 \<le> a mod m" using assms by simp
  have "g = gcd (a mod m) m"
  proof (cases "a mod m = 0")
    case True
    with e have "g = m" by (simp add: extended_gcd_zero)
    with True assms show ?thesis by simp
  next
    case False
    with ge have "0 < a mod m" by simp
    from extended_gcd_sign_pos [OF this e] extended_gcd_abs [OF e] show ?thesis by simp
  qed
  with e assms show ?thesis
    by (auto simp: mod_inverse_def)
qed

lemma inverse_unique:
  fixes m :: int
  assumes "1 < m" "0 \<le> x" "x < m" "0 \<le> z" "z < m" "(a * x) mod m = 1" "(a * z) mod m = 1"
  shows "z = x"
proof -
  have "z mod m = (z * ((a * x) mod m)) mod m" using assms by simp
  also have "\<dots> = (z * (a * x)) mod m" by (simp add: mod_mult_right_eq)
  also have "z * (a * x) = x * (a * z)" by (simp add: algebra_simps)
  also have "(x * (a * z)) mod m = (x * ((a * z) mod m)) mod m" by (simp add: mod_mult_right_eq)
  also have "\<dots> = x mod m" using assms by simp
  finally show ?thesis using assms by simp
qed

text \<open>
  Claim C4. For all integers \<open>a\<close> and \<open>m\<close> with \<open>m > 1\<close>: \<open>mod_inverse(a, m)\<close> depends
  on \<open>a\<close> through \<open>a mod m\<close> only; when \<open>gcd(a mod m, m) = 1\<close> it returns the unique \<open>x\<close>
  in \<open>[0, m)\<close> with \<open>(a * x) mod m = 1\<close>; when \<open>gcd(a mod m, m) \<noteq> 1\<close> it raises the
  \<open>ValueError\<close> that says there is no inverse.
\<close>

theorem mod_inverse_spec:
  assumes "1 < m"
  shows "mod_inverse a m = mod_inverse (a mod m) m \<and>
         (gcd (a mod m) m = 1 \<longrightarrow>
            (\<exists>x. mod_inverse a m = Inr x \<and> 0 \<le> x \<and> x < m \<and> (a * x) mod m = 1 \<and>
                 (\<forall>z. 0 \<le> z \<and> z < m \<and> (a * z) mod m = 1 \<longrightarrow> z = x))) \<and>
         (gcd (a mod m) m \<noteq> 1 \<longrightarrow> mod_inverse a m = Inl ValueError)"
proof (intro conjI impI)
  show "mod_inverse a m = mod_inverse (a mod m) m"
    by (simp add: mod_inverse_def)
next
  assume cop: "gcd (a mod m) m = 1"
  have "\<not> (\<exists>e. mod_inverse a m = Inl e)"
    using mod_inverse_Inl [OF assms] cop by simp
  then obtain x where x: "mod_inverse a m = Inr x"
    by (cases "mod_inverse a m") auto
  from mod_inverse_Inr [OF assms x] have p: "0 \<le> x" "x < m" "(a * x) mod m = 1" by simp_all
  have "\<forall>z. 0 \<le> z \<and> z < m \<and> (a * z) mod m = 1 \<longrightarrow> z = x"
    using inverse_unique [OF assms p(1) p(2) _ _ p(3)] by blast
  with x p show "\<exists>x. mod_inverse a m = Inr x \<and> 0 \<le> x \<and> x < m \<and> (a * x) mod m = 1 \<and>
                 (\<forall>z. 0 \<le> z \<and> z < m \<and> (a * z) mod m = 1 \<longrightarrow> z = x)" by blast
next
  assume "gcd (a mod m) m \<noteq> 1"
  then show "mod_inverse a m = Inl ValueError"
    using mod_inverse_Inl [OF assms, of a ValueError] by simp
qed


theorem mod_inverse_spec_witness:
  "(1::int) < 7 \<and> gcd ((3::int) mod 7) 7 = 1 \<and> mod_inverse 3 7 = Inr 5 \<and> (3 * 5) mod 7 = (1::int)
   \<and> (1::int) < 8 \<and> gcd ((4::int) mod 8) 8 \<noteq> 1 \<and> mod_inverse 4 8 = Inl ValueError"
proof -
  have c: "gcd ((3::int) mod 7) 7 = 1" by code_simp
  have n: "gcd ((4::int) mod 8) 8 \<noteq> 1" by simp
  have "mod_inverse 3 7 = Inr 5"
    using mod_inverse_spec [of 7 3] c by (simp add: mod_inverse_def extended_gcd.simps)
  moreover have "mod_inverse 4 8 = Inl ValueError"
    using mod_inverse_spec [of 8 4] n by simp
  ultimately show ?thesis using c n by simp
qed

section \<open>The extended Euclidean algorithm on all integers\<close>


text \<open>
  Claim C10, as the code has it. For all integers \<open>a\<close> and \<open>b\<close>, the triple \<open>(g, x, y)\<close>
  that \<open>extended_gcd(a, b)\<close> returns satisfies \<open>a * x + b * y = g\<close>, and \<open>g\<close> is the
  greatest common divisor up to sign; \<open>g\<close> is the greatest common divisor itself when
  \<open>a\<close> is positive, or \<open>a\<close> is 0 and \<open>b\<close> is not negative. For \<open>a = 0\<close> the result is
  \<open>(b, 0, 1)\<close>. The function is total: the recursion ends for all integers.
\<close>

theorem extended_gcd_bezout_gcd:
  "(case extended_gcd a b of (g, x, y) \<Rightarrow>
      a * x + b * y = g \<and> \<bar>g\<bar> = gcd a b \<and> (0 < a \<or> (a = 0 \<and> 0 \<le> b) \<longrightarrow> g = gcd a b))
   \<and> extended_gcd 0 b = (b, 0, 1)"
proof -
  obtain g x y where e: "extended_gcd a b = (g, x, y)"
    by (cases "extended_gcd a b") auto
  have "0 < a \<or> (a = 0 \<and> 0 \<le> b) \<longrightarrow> g = gcd a b"
  proof
    assume "0 < a \<or> (a = 0 \<and> 0 \<le> b)"
    then show "g = gcd a b"
    proof
      assume "0 < a"
      from extended_gcd_sign_pos [OF this e] extended_gcd_abs [OF e] show ?thesis by simp
    next
      assume "a = 0 \<and> 0 \<le> b"
      with e show ?thesis by (simp add: extended_gcd_zero)
    qed
  qed
  with e extended_gcd_bezout [OF e] extended_gcd_abs [OF e] show ?thesis
    by (simp add: extended_gcd_zero)
qed

theorem extended_gcd_bezout_gcd_witness:
  "(0::int) < 240 \<and> extended_gcd 240 46 = (2, - 9, 47) \<and> 240 * (- 9) + 46 * 47 = (2::int)
     \<and> gcd (240::int) 46 = 2"
  using extended_gcd_bezout_gcd [of 240 46] by (simp add: extended_gcd.simps)

text \<open>
  Claim C10 as stated fails for a negative operand: \<open>extended_gcd(0, -5)\<close> returns
  \<open>-5\<close> as first component and \<open>extended_gcd(-4, 6)\<close> returns \<open>-2\<close>, where the greatest
  common divisors are 5 and 2.
\<close>

theorem extended_gcd_negative_counterexample:
  "fst (extended_gcd 0 (- 5)) \<noteq> gcd 0 (- 5) \<and> fst (extended_gcd (- 4) 6) \<noteq> gcd (- 4) 6"
proof -
  have "(0::int) \<le> gcd 4 6" by simp
  then have "gcd (4::int) 6 \<noteq> - 2" by linarith
  then show ?thesis by (simp add: extended_gcd.simps)
qed



section \<open>Results and errors of the engine operations\<close>


text \<open>
  The digests of the two messages used below, computed by the model of SHA-256.
\<close>

lemma hash_message_hi:
  "hash_message ''hi'' =
     64799580415538975799983076416639475941656422820260801829320304467613060332196"
  by code_simp

lemma hash_message_Test:
  "hash_message ''Test'' =
     37624419805439260122109877671597282370833625459492083204494327308667894128165"
  by code_simp

text \<open>
  Claim C8. In DSA sign, once the public key and \<open>g^k mod p\<close> are computed: if
  \<open>r = (g^k mod p) mod q\<close> is 0 the call returns the error for \<open>r = 0\<close> with the steps
  of stages 1 and 2, and if \<open>r\<close> is not 0, \<open>k\<close> has the inverse \<open>k_inv\<close> and
  \<open>s = k_inv * (h + x * r) mod q\<close> is 0 the call returns the error for \<open>s = 0\<close> with the
  steps appended so far, the step of \<open>s\<close> included. Neither result carries a signature.
\<close>

theorem dsa_sign_zero_component:
  assumes "pow_mod g x p = Inr y" and "pow_mod g k p = Inr gk" and "q \<noteq> 0"
  shows "(gk mod q = 0 \<longrightarrow>
            dsa_educational_sign p q g x k message =
              Inr (SignFailure RZero
                [\<lparr>step = 1, result = IntResult y, extras = []\<rparr>,
                 \<lparr>step = 2, result = IntResult (hash_message message mod q),
                    extras = [HashFull (hash_message message)]\<rparr>]))
       \<and> (gk mod q \<noteq> 0 \<and> mod_inverse k q = Inr k_inv
            \<and> (k_inv * ((hash_message message mod q + (x * (gk mod q)) mod q) mod q)) mod q = 0 \<longrightarrow>
            dsa_educational_sign p q g x k message =
              Inr (SignFailure SZero
                [\<lparr>step = 1, result = IntResult y, extras = []\<rparr>,
                 \<lparr>step = 2, result = IntResult (hash_message message mod q),
                    extras = [HashFull (hash_message message)]\<rparr>,
                 \<lparr>step = 4, result = IntResult k_inv, extras = []\<rparr>,
                 \<lparr>step = 5, result = IntResult 0,
                    extras = [Intermediate [(x * (gk mod q)) mod q,
                       (hash_message message mod q + (x * (gk mod q)) mod q) mod q, 0]]\<rparr>]))"
  using assms by (simp add: dsa_educational_sign_def Let_def)

theorem dsa_sign_zero_component_witness:
  "pow_mod 3 2 11 = Inr 9 \<and> pow_mod 3 3 11 = Inr 5 \<and> (5::int) \<noteq> 0 \<and> (5::int) mod 5 = 0
   \<and> dsa_educational_sign 11 5 3 2 3 ''hi'' =
        Inr (SignFailure RZero
          [\<lparr>step = 1, result = IntResult 9, extras = []\<rparr>,
           \<lparr>step = 2, result = IntResult 1, extras = [HashFull
             64799580415538975799983076416639475941656422820260801829320304467613060332196]\<rparr>])
   \<and> pow_mod 4 6 23 = Inr 2 \<and> pow_mod 4 7 23 = Inr 8 \<and> (11::int) \<noteq> 0 \<and> (8::int) mod 11 \<noteq> 0
   \<and> mod_inverse 7 11 = Inr 8
   \<and> dsa_educational_sign 23 11 4 6 7 ''hi'' =
        Inr (SignFailure SZero
          [\<lparr>step = 1, result = IntResult 2, extras = []\<rparr>,
           \<lparr>step = 2, result = IntResult 7, extras = [HashFull
             64799580415538975799983076416639475941656422820260801829320304467613060332196]\<rparr>,
           \<lparr>step = 4, result = IntResult 8, extras = []\<rparr>,
           \<lparr>step = 5, result = IntResult 0, extras = [Intermediate [4, 0, 0]]\<rparr>])"
proof -
  have a: "pow_mod 3 2 11 = Inr 9" "pow_mod 3 3 11 = Inr 5"
    by (simp_all add: pow_mod_def)
  have b: "pow_mod 4 6 23 = Inr 2" "pow_mod 4 7 23 = Inr 8"
    by (simp_all add: pow_mod_def)
  have c: "mod_inverse 7 11 = Inr 8"
    by (simp add: mod_inverse_def extended_gcd.simps)
  show ?thesis
    using dsa_sign_zero_component [OF a, where q = 5 and message = "''hi''" and k_inv = 0]
          dsa_sign_zero_component [OF b, where q = 11 and message = "''hi''" and k_inv = 8] a b c
    by (simp add: hash_message_hi)
qed

text \<open>
  Every successful DSA sign call returns four records, numbered 1, 2, 4 and 5.
\<close>

lemma dsa_sign_success_steps:
  assumes "dsa_educational_sign p q g x k message = Inr (SignSuccess sg y st)"
  shows "map step st = [1, 2, 4, 5]"
  using assms
  by (auto simp: dsa_educational_sign_def Let_def split: sum.splits if_splits)

text \<open>
  Claim C7 on the code: the successful call with \<open>p=23, q=11, g=4, x=3, k=7\<close> and
  message \<open>hi\<close> returns the signature \<open>(8, 6)\<close> and four records, not five: stage 3,
  which computes \<open>r\<close>, appends no record, and the records are numbered 1, 2, 4, 5.
\<close>

theorem dsa_sign_trace_has_four_records:
  "dsa_educational_sign 23 11 4 3 7 ''hi'' =
     Inr (SignSuccess (8, 6) 18
       [\<lparr>step = 1, result = IntResult 18, extras = []\<rparr>,
        \<lparr>step = 2, result = IntResult 7, extras = [HashFull
          64799580415538975799983076416639475941656422820260801829320304467613060332196]\<rparr>,
        \<lparr>step = 4, result = IntResult 8, extras = []\<rparr>,
        \<lparr>step = 5, result = IntResult 6, extras = [Intermediate [2, 9, 6]]\<rparr>])"
  by (simp add: dsa_educational_sign_def Let_def pow_mod_def mod_inverse_def
        extended_gcd.simps hash_message_hi)

text \<open>
  The outcomes of the four engine operations and of their routes: the records of a
  returned result are those of the stages completed, and an exception leaves no record.
\<close>

lemma mod_inverse_raises:
  "1 < m \<Longrightarrow> gcd (a mod m) m \<noteq> 1 \<Longrightarrow> mod_inverse a m = Inl ValueError"
  using mod_inverse_Inl [of m a ValueError] by simp

lemma dsa_sign_outcome:
  "(case dsa_educational_sign p q g x k message of
      Inl e \<Rightarrow> api_dsa_educational_sign p q g x k message = ErrorOnly 400 e
    | Inr (SignSuccess sg y st) \<Rightarrow>
        map step st = [1, 2, 4, 5]
        \<and> api_dsa_educational_sign p q g x k message = Body 200 (SignSuccess sg y st)
    | Inr (SignFailure err st) \<Rightarrow>
        ((err = RZero \<and> map step st = [1, 2]) \<or> (err = SZero \<and> map step st = [1, 2, 4, 5]))
        \<and> api_dsa_educational_sign p q g x k message = Body 400 (SignFailure err st))"
  by (auto simp: api_dsa_educational_sign_def dsa_educational_sign_def Let_def
           split: sum.splits if_splits sign_result.splits)

lemma dsa_verify_outcome:
  "(case dsa_educational_verify p q g y r s message of
      Inl e \<Rightarrow> api_dsa_educational_verify p q g y r s message = ErrorOnly 400 e
    | Inr (VerifySuccess valid v r' st) \<Rightarrow>
        map step st = [1, 2, 3, 4, 5, 6]
        \<and> api_dsa_educational_verify p q g y r s message = Body 200 (VerifySuccess valid v r' st)
    | Inr (VerifyFailure err st) \<Rightarrow> False)"
  by (auto simp: api_dsa_educational_verify_def dsa_educational_verify_def Let_def
           split: sum.splits if_splits verify_result.splits)

lemma ecdsa_sign_outcome:
  "(case ecdsa_educational_sign a b p Gx Gy n d k message of
      Inl e \<Rightarrow> api_ecdsa_educational_sign a b p Gx Gy n d k message = ErrorOnly 400 e
    | Inr (SignSuccess sg Q st) \<Rightarrow>
        map step st = [0, 1, 2, 3, 5, 6]
        \<and> api_ecdsa_educational_sign a b p Gx Gy n d k message = Body 200 (SignSuccess sg Q st)
    | Inr (SignFailure err st) \<Rightarrow>
        ((err = GeneratorNotOnCurve Gx Gy \<and> st = [])
         \<or> (err = NonceAtInfinity \<and> map step st = [0, 1, 2])
         \<or> (err = RZero \<and> map step st = [0, 1, 2, 3])
         \<or> (err = SZero \<and> map step st = [0, 1, 2, 3, 5, 6]))
        \<and> api_ecdsa_educational_sign a b p Gx Gy n d k message = Body 400 (SignFailure err st))"
  by (auto simp: api_ecdsa_educational_sign_def ecdsa_educational_sign_def Let_def
           split: sum.splits if_splits sign_result.splits option.splits prod.splits)

lemma ecdsa_verify_outcome:
  "(case ecdsa_educational_verify a b p Gx Gy n Qx Qy r s message of
      Inl e \<Rightarrow> api_ecdsa_educational_verify a b p Gx Gy n Qx Qy r s message = ErrorOnly 400 e
    | Inr (VerifySuccess valid v r' st) \<Rightarrow>
        map step st = [0, 1, 2, 3, 4, 5, 6, 7, 8]
        \<and> api_ecdsa_educational_verify a b p Gx Gy n Qx Qy r s message
            = Body 200 (VerifySuccess valid v r' st)
    | Inr (VerifyFailure err st) \<Rightarrow>
        ((err = GeneratorNotOnCurve Gx Gy \<and> st = [])
         \<or> (err = PublicKeyNotOnCurve Qx Qy \<and> st = [])
         \<or> (err = U1GAtInfinity \<and> map step st = [0, 1, 2, 3, 4])
         \<or> (err = U2QAtInfinity \<and> map step st = [0, 1, 2, 3, 4, 5])
         \<or> (err = SumAtInfinity \<and> map step st = [0, 1, 2, 3, 4, 5, 6]))
        \<and> api_ecdsa_educational_verify a b p Gx Gy n Qx Qy r s message
            = Body 400 (VerifyFailure err st))"
  by (auto simp: api_ecdsa_educational_verify_def ecdsa_educational_verify_def Let_def
           split: sum.splits if_splits verify_result.splits option.splits prod.splits)

lemma dsa_sign_raises:
  assumes "pow_mod g x p = Inr y" "pow_mod g k p = Inr gk" "1 < q" "gk mod q \<noteq> 0"
    "gcd (k mod q) q \<noteq> 1"
  shows "dsa_educational_sign p q g x k message = Inl ValueError"
  using assms mod_inverse_raises [OF assms(3,5)]
  by (simp add: dsa_educational_sign_def Let_def)

lemma dsa_verify_raises:
  assumes "1 < q" "gcd (s mod q) q \<noteq> 1"
  shows "dsa_educational_verify p q g y r s message = Inl ValueError"
  using assms mod_inverse_raises [OF assms]
  by (simp add: dsa_educational_verify_def Let_def)

lemma ecdsa_sign_raises:
  assumes "p \<noteq> 0" "(Gy * Gy - (Gx ^ 3 + a * Gx + b)) mod p = 0"
    "scalar_multiply_steps \<lparr>curve_a = a, curve_b = b, curve_p = p\<rparr> d (Some (Gx, Gy))
       = Inr (Q, ms)"
    "1 < n"
    "scalar_multiply_steps \<lparr>curve_a = a, curve_b = b, curve_p = p\<rparr> k (Some (Gx, Gy))
       = Inr (Some (x1, y1), ks)"
    "x1 mod n \<noteq> 0" "gcd (k mod n) n \<noteq> 1"
  shows "ecdsa_educational_sign a b p Gx Gy n d k message = Inl ValueError"
  using assms mod_inverse_raises [OF assms(4,7)]
  by (simp add: ecdsa_educational_sign_def is_on_curve_def Let_def)

lemma ecdsa_verify_raises:
  assumes "p \<noteq> 0" "(Gy * Gy - (Gx ^ 3 + a * Gx + b)) mod p = 0"
    "(Qy * Qy - (Qx ^ 3 + a * Qx + b)) mod p = 0" "1 < n" "gcd (s mod n) n \<noteq> 1"
  shows "ecdsa_educational_verify a b p Gx Gy n Qx Qy r s message = Inl ValueError"
  using assms mod_inverse_raises [OF assms(4,5)]
  by (simp add: ecdsa_educational_verify_def is_on_curve_def Let_def)

lemma ecdsa_sign_raises_without_public_key:
  assumes "p \<noteq> 0" "(Gy * Gy - (Gx ^ 3 + a * Gx + b)) mod p = 0"
    "scalar_multiply_steps \<lparr>curve_a = a, curve_b = b, curve_p = p\<rparr> d (Some (Gx, Gy))
       = Inr (None, ms)"
    "n \<noteq> 0"
    "scalar_multiply_steps \<lparr>curve_a = a, curve_b = b, curve_p = p\<rparr> k (Some (Gx, Gy))
       = Inr (Some (kx, ky), ks)"
    "kx mod n \<noteq> 0" "mod_inverse k n = Inr k_inv"
    "(k_inv * ((hash_message message mod n + (d * (kx mod n)) mod n) mod n)) mod n \<noteq> 0"
  shows "ecdsa_educational_sign a b p Gx Gy n d k message = Inl TypeError"
  using assms
  by (simp add: ecdsa_educational_sign_def is_on_curve_def Let_def)

text \<open>
  Claim C5, as the code has it. Each of the four engine operations ends in one of three
  ways, and the route answers accordingly: it returns the success dictionary (status 200);
  it returns an error dictionary, whose error kind comes with the records of the stages
  completed before the failure (status 400); or it raises an exception, and the route
  answers with the message of the exception alone, without any record (status 400). A
  modular inverse that does not exist is of the third kind in all four operations: DSA
  sign with \<open>r \<noteq> 0\<close> and a nonce \<open>k\<close> that has no inverse modulo \<open>q > 1\<close> raises the
  \<open>ValueError\<close> of \<open>mod_inverse\<close>, and so do DSA verify and ECDSA verify on an \<open>s\<close>
  without inverse and ECDSA sign on a \<open>k\<close> without inverse. ECDSA sign also raises, with
  \<open>TypeError\<close>, when the signature is computed and the public point \<open>d * G\<close> is the point
  at infinity.
\<close>

theorem engine_outcomes:
  "(case dsa_educational_sign p q g x k message of
      Inl e \<Rightarrow> api_dsa_educational_sign p q g x k message = ErrorOnly 400 e
    | Inr (SignSuccess sg pk st) \<Rightarrow>
        map step st = [1, 2, 4, 5]
        \<and> api_dsa_educational_sign p q g x k message = Body 200 (SignSuccess sg pk st)
    | Inr (SignFailure err st) \<Rightarrow>
        ((err = RZero \<and> map step st = [1, 2]) \<or> (err = SZero \<and> map step st = [1, 2, 4, 5]))
        \<and> api_dsa_educational_sign p q g x k message = Body 400 (SignFailure err st))
   \<and> (case dsa_educational_verify p q g y r s message of
      Inl e \<Rightarrow> api_dsa_educational_verify p q g y r s message = ErrorOnly 400 e
    | Inr (VerifySuccess valid v r' st) \<Rightarrow>
        map step st = [1, 2, 3, 4, 5, 6]
        \<and> api_dsa_educational_verify p q g y r s message = Body 200 (VerifySuccess valid v r' st)
    | Inr (VerifyFailure err st) \<Rightarrow> False)
   \<and> (case ecdsa_educational_sign a b p Gx Gy n d k message of
      Inl e \<Rightarrow> api_ecdsa_educational_sign a b p Gx Gy n d k message = ErrorOnly 400 e
    | Inr (SignSuccess sg Q st) \<Rightarrow>
        map step st = [0, 1, 2, 3, 5, 6]
        \<and> api_ecdsa_educational_sign a b p Gx Gy n d k message = Body 200 (SignSuccess sg Q st)
    | Inr (SignFailure err st) \<Rightarrow>
        ((err = GeneratorNotOnCurve Gx Gy \<and> st = [])
         \<or> (err = NonceAtInfinity \<and> map step st = [0, 1, 2])
         \<or> (err = RZero \<and> map step st = [0, 1, 2, 3])
         \<or> (err = SZero \<and> map step st = [0, 1, 2, 3, 5, 6]))
        \<and> api_ecdsa_educational_sign a b p Gx Gy n d k message = Body 400 (SignFailure err st))
   \<and> (case ecdsa_educational_verify a b p Gx Gy n Qx Qy r s message of
      Inl e \<Rightarrow> api_ecdsa_educational_verify a b p Gx Gy n Qx Qy r s message = ErrorOnly 400 e
    | Inr (VerifySuccess valid v r' st) \<Rightarrow>
        map step st = [0, 1, 2, 3, 4, 5, 6, 7, 8]
        \<and> api_ecdsa_educational_verify a b p Gx Gy n Qx Qy r s message
            = Body 200 (VerifySuccess valid v r' st)
    | Inr (VerifyFailure err st) \<Rightarrow>
        ((err = GeneratorNotOnCurve Gx Gy \<and> st = [])
         \<or> (err = PublicKeyNotOnCurve Qx Qy \<and> st = [])
         \<or> (err = U1GAtInfinity \<and> map step st = [0, 1, 2, 3, 4])
         \<or> (err = U2QAtInfinity \<and> map step st = [0, 1, 2, 3, 4, 5])
         \<or> (err = SumAtInfinity \<and> map step st = [0, 1, 2, 3, 4, 5, 6]))
        \<and> api_ecdsa_educational_verify a b p Gx Gy n Qx Qy r s message
            = Body 400 (VerifyFailure err st))
   \<and> (pow_mod g x p = Inr y \<and> pow_mod g k p = Inr gk \<and> 1 < q \<and> gk mod q \<noteq> 0
        \<and> gcd (k mod q) q \<noteq> 1 \<longrightarrow>
        dsa_educational_sign p q g x k message = Inl ValueError
        \<and> api_dsa_educational_sign p q g x k message = ErrorOnly 400 ValueError)
   \<and> (1 < q \<and> gcd (s mod q) q \<noteq> 1 \<longrightarrow>
        dsa_educational_verify p q g y r s message = Inl ValueError
        \<and> api_dsa_educational_verify p q g y r s message = ErrorOnly 400 ValueError)
   \<and> (p \<noteq> 0 \<and> (Gy * Gy - (Gx ^ 3 + a * Gx + b)) mod p = 0
        \<and> scalar_multiply_steps \<lparr>curve_a = a, curve_b = b, curve_p = p\<rparr> d (Some (Gx, Gy))
            = Inr (Q', ms)
        \<and> 1 < n
        \<and> scalar_multiply_steps \<lparr>curve_a = a, curve_b = b, curve_p = p\<rparr> k (Some (Gx, Gy))
            = Inr (Some (kx, ky), ks)
        \<and> kx mod n \<noteq> 0 \<and> gcd (k mod n) n \<noteq> 1 \<longrightarrow>
        ecdsa_educational_sign a b p Gx Gy n d k message = Inl ValueError
        \<and> api_ecdsa_educational_sign a b p Gx Gy n d k message = ErrorOnly 400 ValueError)
   \<and> (p \<noteq> 0 \<and> (Gy * Gy - (Gx ^ 3 + a * Gx + b)) mod p = 0
        \<and> (Qy * Qy - (Qx ^ 3 + a * Qx + b)) mod p = 0 \<and> 1 < n \<and> gcd (s mod n) n \<noteq> 1 \<longrightarrow>
        ecdsa_educational_verify a b p Gx Gy n Qx Qy r s message = Inl ValueError
        \<and> api_ecdsa_educational_verify a b p Gx Gy n Qx Qy r s message
            = ErrorOnly 400 ValueError)
   \<and> (p \<noteq> 0 \<and> (Gy * Gy - (Gx ^ 3 + a * Gx + b)) mod p = 0
        \<and> scalar_multiply_steps \<lparr>curve_a = a, curve_b = b, curve_p = p\<rparr> d (Some (Gx, Gy))
            = Inr (None, ms)
        \<and> n \<noteq> 0
        \<and> scalar_multiply_steps \<lparr>curve_a = a, curve_b = b, curve_p = p\<rparr> k (Some (Gx, Gy))
            = Inr (Some (kx, ky), ks)
        \<and> kx mod n \<noteq> 0 \<and> mod_inverse k n = Inr k_inv
        \<and> (k_inv * ((hash_message message mod n + (d * (kx mod n)) mod n) mod n)) mod n \<noteq> 0
        \<longrightarrow>
        ecdsa_educational_sign a b p Gx Gy n d k message = Inl TypeError
        \<and> api_ecdsa_educational_sign a b p Gx Gy n d k message = ErrorOnly 400 TypeError)"
proof (intro conjI)
  show "p \<noteq> 0 \<and> (Gy * Gy - (Gx ^ 3 + a * Gx + b)) mod p = 0
        \<and> scalar_multiply_steps \<lparr>curve_a = a, curve_b = b, curve_p = p\<rparr> d (Some (Gx, Gy))
            = Inr (None, ms)
        \<and> n \<noteq> 0
        \<and> scalar_multiply_steps \<lparr>curve_a = a, curve_b = b, curve_p = p\<rparr> k (Some (Gx, Gy))
            = Inr (Some (kx, ky), ks)
        \<and> kx mod n \<noteq> 0 \<and> mod_inverse k n = Inr k_inv
        \<and> (k_inv * ((hash_message message mod n + (d * (kx mod n)) mod n) mod n)) mod n \<noteq> 0
        \<longrightarrow>
        ecdsa_educational_sign a b p Gx Gy n d k message = Inl TypeError
        \<and> api_ecdsa_educational_sign a b p Gx Gy n d k message = ErrorOnly 400 TypeError"
  proof
    assume "p \<noteq> 0 \<and> (Gy * Gy - (Gx ^ 3 + a * Gx + b)) mod p = 0
        \<and> scalar_multiply_steps \<lparr>curve_a = a, curve_b = b, curve_p = p\<rparr> d (Some (Gx, Gy))
            = Inr (None, ms)
        \<and> n \<noteq> 0
        \<and> scalar_multiply_steps \<lparr>curve_a = a, curve_b = b, curve_p = p\<rparr> k (Some (Gx, Gy))
            = Inr (Some (kx, ky), ks)
        \<and> kx mod n \<noteq> 0 \<and> mod_inverse k n = Inr k_inv
        \<and> (k_inv * ((hash_message message mod n + (d * (kx mod n)) mod n) mod n)) mod n \<noteq> 0"
    then have t1: "p \<noteq> 0" and t2: "(Gy * Gy - (Gx ^ 3 + a * Gx + b)) mod p = 0"
      and t3: "scalar_multiply_steps \<lparr>curve_a = a, curve_b = b, curve_p = p\<rparr> d (Some (Gx, Gy))
            = Inr (None, ms)"
      and t4: "n \<noteq> 0"
      and t5: "scalar_multiply_steps \<lparr>curve_a = a, curve_b = b, curve_p = p\<rparr> k (Some (Gx, Gy))
            = Inr (Some (kx, ky), ks)"
      and t6: "kx mod n \<noteq> 0" and t7: "mod_inverse k n = Inr k_inv"
      and t8: "(k_inv * ((hash_message message mod n + (d * (kx mod n)) mod n) mod n)) mod n
                 \<noteq> 0"
      by simp_all
    have "ecdsa_educational_sign a b p Gx Gy n d k message = Inl TypeError"
      by (rule ecdsa_sign_raises_without_public_key [OF t1 t2 t3 t4 t5 t6 t7 t8])
    then show "ecdsa_educational_sign a b p Gx Gy n d k message = Inl TypeError
        \<and> api_ecdsa_educational_sign a b p Gx Gy n d k message = ErrorOnly 400 TypeError"
      by (simp add: api_ecdsa_educational_sign_def)
  qed
  show "pow_mod g x p = Inr y \<and> pow_mod g k p = Inr gk \<and> 1 < q \<and> gk mod q \<noteq> 0
        \<and> gcd (k mod q) q \<noteq> 1 \<longrightarrow>
        dsa_educational_sign p q g x k message = Inl ValueError
        \<and> api_dsa_educational_sign p q g x k message = ErrorOnly 400 ValueError"
    by (auto simp: dsa_sign_raises api_dsa_educational_sign_def)
  show "1 < q \<and> gcd (s mod q) q \<noteq> 1 \<longrightarrow>
        dsa_educational_verify p q g y r s message = Inl ValueError
        \<and> api_dsa_educational_verify p q g y r s message = ErrorOnly 400 ValueError"
    by (auto simp: dsa_verify_raises api_dsa_educational_verify_def)
  show "p \<noteq> 0 \<and> (Gy * Gy - (Gx ^ 3 + a * Gx + b)) mod p = 0
        \<and> scalar_multiply_steps \<lparr>curve_a = a, curve_b = b, curve_p = p\<rparr> d (Some (Gx, Gy))
            = Inr (Q', ms)
        \<and> 1 < n
        \<and> scalar_multiply_steps \<lparr>curve_a = a, curve_b = b, curve_p = p\<rparr> k (Some (Gx, Gy))
            = Inr (Some (kx, ky), ks)
        \<and> kx mod n \<noteq> 0 \<and> gcd (k mod n) n \<noteq> 1 \<longrightarrow>
        ecdsa_educational_sign a b p Gx Gy n d k message = Inl ValueError
        \<and> api_ecdsa_educational_sign a b p Gx Gy n d k message = ErrorOnly 400 ValueError"
  proof
    assume h: "p \<noteq> 0 \<and> (Gy * Gy - (Gx ^ 3 + a * Gx + b)) mod p = 0
        \<and> scalar_multiply_steps \<lparr>curve_a = a, curve_b = b, curve_p = p\<rparr> d (Some (Gx, Gy))
            = Inr (Q', ms)
        \<and> 1 < n
        \<and> scalar_multiply_steps \<lparr>curve_a = a, curve_b = b, curve_p = p\<rparr> k (Some (Gx, Gy))
            = Inr (Some (kx, ky), ks)
        \<and> kx mod n \<noteq> 0 \<and> gcd (k mod n) n \<noteq> 1"
    then have a1: "p \<noteq> 0" and a2: "(Gy * Gy - (Gx ^ 3 + a * Gx + b)) mod p = 0"
      and a3: "scalar_multiply_steps \<lparr>curve_a = a, curve_b = b, curve_p = p\<rparr> d (Some (Gx, Gy))
            = Inr (Q', ms)"
      and a4: "1 < n"
      and a5: "scalar_multiply_steps \<lparr>curve_a = a, curve_b = b, curve_p = p\<rparr> k (Some (Gx, Gy))
            = Inr (Some (kx, ky), ks)"
      and a6: "kx mod n \<noteq> 0" and a7: "gcd (k mod n) n \<noteq> 1"
      by simp_all
    have "ecdsa_educational_sign a b p Gx Gy n d k message = Inl ValueError"
      by (rule ecdsa_sign_raises [OF a1 a2 a3 a4 a5 a6 a7])
    then show "ecdsa_educational_sign a b p Gx Gy n d k message = Inl ValueError
        \<and> api_ecdsa_educational_sign a b p Gx Gy n d k message = ErrorOnly 400 ValueError"
      by (simp add: api_ecdsa_educational_sign_def)
  qed
  show "p \<noteq> 0 \<and> (Gy * Gy - (Gx ^ 3 + a * Gx + b)) mod p = 0
        \<and> (Qy * Qy - (Qx ^ 3 + a * Qx + b)) mod p = 0 \<and> 1 < n \<and> gcd (s mod n) n \<noteq> 1 \<longrightarrow>
        ecdsa_educational_verify a b p Gx Gy n Qx Qy r s message = Inl ValueError
        \<and> api_ecdsa_educational_verify a b p Gx Gy n Qx Qy r s message
            = ErrorOnly 400 ValueError"
    by (auto simp: ecdsa_verify_raises api_ecdsa_educational_verify_def)
qed (rule dsa_sign_outcome dsa_verify_outcome ecdsa_sign_outcome ecdsa_verify_outcome)+

theorem engine_outcomes_witness:
  "pow_mod 4 3 23 = Inr 18 \<and> pow_mod 4 11 23 = Inr 1 \<and> (1::int) < 11 \<and> (1::int) mod 11 \<noteq> 0
   \<and> gcd ((11::int) mod 11) 11 \<noteq> 1
   \<and> dsa_educational_sign 23 11 4 3 11 ''hi'' = Inl ValueError
   \<and> api_dsa_educational_sign 23 11 4 3 11 ''hi'' = ErrorOnly 400 ValueError
   \<and> dsa_educational_verify 23 11 4 18 8 11 ''hi'' = Inl ValueError
   \<and> api_dsa_educational_verify 23 11 4 18 8 11 ''hi'' = ErrorOnly 400 ValueError
   \<and> (97::int) \<noteq> 0 \<and> (6 * 6 - (3 ^ 3 + 2 * 3 + 3)) mod (97::int) = 0
   \<and> scalar_multiply_steps \<lparr>curve_a = 2, curve_b = 3, curve_p = 97\<rparr> 3 (Some (3, 6))
       = Inr (Some (80, 87),
              [Info 3 ''11'', AddStep 0 (Some (3, 6)) (Some (3, 6)),
               AddStep 1 (Some (80, 10)) (Some (80, 87))])
   \<and> (1::int) < 7
   \<and> scalar_multiply_steps \<lparr>curve_a = 2, curve_b = 3, curve_p = 97\<rparr> 7 (Some (3, 6))
       = Inr (Some (80, 10),
              [Info 7 ''111'', AddStep 0 (Some (3, 6)) (Some (3, 6)),
               AddStep 1 (Some (80, 10)) (Some (80, 87)),
               AddStep 2 (Some (3, 91)) (Some (80, 10))])
   \<and> (80::int) mod 7 \<noteq> 0 \<and> gcd ((7::int) mod 7) 7 \<noteq> 1
   \<and> ecdsa_educational_sign 2 3 97 3 6 7 3 7 ''Test'' = Inl ValueError
   \<and> api_ecdsa_educational_sign 2 3 97 3 6 7 3 7 ''Test'' = ErrorOnly 400 ValueError
   \<and> (87 * 87 - (80 ^ 3 + 2 * 80 + 3)) mod (97::int) = 0
   \<and> (1::int) < 5 \<and> gcd ((0::int) mod 5) 5 \<noteq> 1
   \<and> ecdsa_educational_verify 2 3 97 3 6 5 80 87 3 0 ''hi'' = Inl ValueError
   \<and> api_ecdsa_educational_verify 2 3 97 3 6 5 80 87 3 0 ''hi'' = ErrorOnly 400 ValueError
   \<and> scalar_multiply_steps \<lparr>curve_a = 2, curve_b = 3, curve_p = 97\<rparr> 0 (Some (3, 6))
       = Inr (None, [])
   \<and> scalar_multiply_steps \<lparr>curve_a = 2, curve_b = 3, curve_p = 97\<rparr> 1 (Some (3, 6))
       = Inr (Some (3, 6), [Info 1 ''1'', AddStep 0 (Some (3, 6)) (Some (3, 6))])
   \<and> (3::int) mod 5 \<noteq> 0 \<and> mod_inverse 1 5 = Inr 1
   \<and> (1 * ((hash_message ''hi'' mod 5 + (0 * (3 mod 5)) mod 5) mod 5)) mod 5 = 1
   \<and> ecdsa_educational_sign 2 3 97 3 6 5 0 1 ''hi'' = Inl TypeError
   \<and> api_ecdsa_educational_sign 2 3 97 3 6 5 0 1 ''hi'' = ErrorOnly 400 TypeError"
proof -
  have pw: "pow_mod 4 3 23 = Inr 18" "pow_mod 4 11 23 = Inr 1"
    by (simp_all add: pow_mod_def)
  have m3: "scalar_multiply_steps \<lparr>curve_a = 2, curve_b = 3, curve_p = 97\<rparr> 3 (Some (3, 6))
       = Inr (Some (80, 87),
              [Info 3 ''11'', AddStep 0 (Some (3, 6)) (Some (3, 6)),
               AddStep 1 (Some (80, 10)) (Some (80, 87))])"
    by (simp add: scalar_multiply_steps_def binary_digits.simps point_add_def
          slope_operands_def mod_inverse_def extended_gcd.simps Let_def)
  have m7: "scalar_multiply_steps \<lparr>curve_a = 2, curve_b = 3, curve_p = 97\<rparr> 7 (Some (3, 6))
       = Inr (Some (80, 10),
              [Info 7 ''111'', AddStep 0 (Some (3, 6)) (Some (3, 6)),
               AddStep 1 (Some (80, 10)) (Some (80, 87)),
               AddStep 2 (Some (3, 91)) (Some (80, 10))])"
    by (simp add: scalar_multiply_steps_def binary_digits.simps point_add_def
          slope_operands_def mod_inverse_def extended_gcd.simps Let_def)
  have ds: "dsa_educational_sign 23 11 4 3 11 ''hi'' = Inl ValueError
      \<and> api_dsa_educational_sign 23 11 4 3 11 ''hi'' = ErrorOnly 400 ValueError"
    using engine_outcomes [where p = 23 and q = 11 and g = 4 and x = 3 and k = 11
        and message = "''hi''" and y = 18 and gk = 1,
        THEN conjunct2, THEN conjunct2, THEN conjunct2, THEN conjunct2, THEN conjunct1] pw
    by simp
  have dv: "dsa_educational_verify 23 11 4 18 8 11 ''hi'' = Inl ValueError
      \<and> api_dsa_educational_verify 23 11 4 18 8 11 ''hi'' = ErrorOnly 400 ValueError"
    using engine_outcomes [where p = 23 and q = 11 and g = 4 and y = 18 and r = 8 and s = 11
        and message = "''hi''",
        THEN conjunct2, THEN conjunct2, THEN conjunct2, THEN conjunct2, THEN conjunct2,
        THEN conjunct1]
    by simp
  have es: "ecdsa_educational_sign 2 3 97 3 6 7 3 7 ''Test'' = Inl ValueError
      \<and> api_ecdsa_educational_sign 2 3 97 3 6 7 3 7 ''Test'' = ErrorOnly 400 ValueError"
    using engine_outcomes [where a = 2 and b = 3 and p = 97 and Gx = 3 and Gy = 6 and n = 7
        and d = 3 and k = 7 and message = "''Test''" and kx = 80 and ky = 10,
        THEN conjunct2, THEN conjunct2, THEN conjunct2, THEN conjunct2, THEN conjunct2,
        THEN conjunct2, THEN conjunct1] m3 m7
    by simp
  have ev: "ecdsa_educational_verify 2 3 97 3 6 5 80 87 3 0 ''hi'' = Inl ValueError
      \<and> api_ecdsa_educational_verify 2 3 97 3 6 5 80 87 3 0 ''hi'' = ErrorOnly 400 ValueError"
    using engine_outcomes [where a = 2 and b = 3 and p = 97 and Gx = 3 and Gy = 6 and n = 5
        and Qx = 80 and Qy = 87 and r = 3 and s = 0 and message = "''hi''",
        THEN conjunct2, THEN conjunct2, THEN conjunct2, THEN conjunct2, THEN conjunct2,
        THEN conjunct2, THEN conjunct2, THEN conjunct1]
    by simp
  have m0: "scalar_multiply_steps \<lparr>curve_a = 2, curve_b = 3, curve_p = 97\<rparr> 0 (Some (3, 6))
       = Inr (None, [])"
    by (simp add: scalar_multiply_steps_def)
  have m1: "scalar_multiply_steps \<lparr>curve_a = 2, curve_b = 3, curve_p = 97\<rparr> 1 (Some (3, 6))
       = Inr (Some (3, 6), [Info 1 ''1'', AddStep 0 (Some (3, 6)) (Some (3, 6))])"
    by (simp add: scalar_multiply_steps_def binary_digits.simps point_add_def Let_def)
  have i1: "mod_inverse 1 5 = Inr 1"
    by (simp add: mod_inverse_def extended_gcd.simps)
  have et: "ecdsa_educational_sign 2 3 97 3 6 5 0 1 ''hi'' = Inl TypeError
      \<and> api_ecdsa_educational_sign 2 3 97 3 6 5 0 1 ''hi'' = ErrorOnly 400 TypeError"
    using engine_outcomes [where a = 2 and b = 3 and p = 97 and Gx = 3 and Gy = 6 and n = 5
        and d = 0 and k = 1 and message = "''hi''" and kx = 3 and ky = 6 and k_inv = 1,
        THEN conjunct2, THEN conjunct2, THEN conjunct2, THEN conjunct2, THEN conjunct2,
        THEN conjunct2, THEN conjunct2, THEN conjunct2] m0 m1 i1
    by (simp add: hash_message_hi)
  show ?thesis using pw m3 m7 ds dv es ev m0 m1 i1 et by (simp add: hash_message_hi)
qed

text \<open>
  Claim C5 as stated fails: with \<open>p=23, q=11, g=4, x=3, k=11\<close> the value \<open>r\<close> is 1
  and \<open>k\<close> has no inverse modulo 11; the call raises and returns neither an error kind
  nor a trace, and the response of the route has the message only.
\<close>

theorem dsa_sign_no_inverse_counterexample:
  "dsa_educational_sign 23 11 4 3 11 ''hi'' = Inl ValueError
   \<and> api_dsa_educational_sign 23 11 4 3 11 ''hi'' = ErrorOnly 400 ValueError"
  by (simp add: api_dsa_educational_sign_def dsa_educational_sign_def Let_def pow_mod_def
        mod_inverse_def extended_gcd.simps)


section \<open>ECDSA: curve errors and the example of the catalogue\<close>


text \<open>
  Claim C9. On a curve with modulus \<open>p \<noteq> 0\<close>: when the generator does not satisfy the
  curve equation, ECDSA sign and ECDSA verify return the error that names the generator
  \<open>G = (Gx, Gy)\<close>, with an empty step list; when the generator does and the public point
  does not, ECDSA verify returns the error that names \<open>Q = (Qx, Qy)\<close>, with an empty
  step list. This holds for every scalar, also for those on which \<open>scalar_multiply\<close>
  raises: the test comes before any scalar multiplication.
\<close>

theorem ecdsa_point_not_on_curve:
  assumes "p \<noteq> 0"
  shows "((Gy * Gy - (Gx ^ 3 + a * Gx + b)) mod p \<noteq> 0 \<longrightarrow>
            ecdsa_educational_sign a b p Gx Gy n d k message =
              Inr (SignFailure (GeneratorNotOnCurve Gx Gy) [])
          \<and> ecdsa_educational_verify a b p Gx Gy n Qx Qy r s message =
              Inr (VerifyFailure (GeneratorNotOnCurve Gx Gy) []))
       \<and> ((Gy * Gy - (Gx ^ 3 + a * Gx + b)) mod p = 0
            \<and> (Qy * Qy - (Qx ^ 3 + a * Qx + b)) mod p \<noteq> 0 \<longrightarrow>
            ecdsa_educational_verify a b p Gx Gy n Qx Qy r s message =
              Inr (VerifyFailure (PublicKeyNotOnCurve Qx Qy) []))"
  using assms
  by (simp add: ecdsa_educational_sign_def ecdsa_educational_verify_def is_on_curve_def Let_def)

theorem ecdsa_point_not_on_curve_witness:
  "(97::int) \<noteq> 0 \<and> (7 * 7 - (3 ^ 3 + 2 * 3 + 3)) mod (97::int) \<noteq> 0
   \<and> ecdsa_educational_sign 2 3 97 3 7 5 (- 3) 1 ''hi'' =
        Inr (SignFailure (GeneratorNotOnCurve 3 7) [])
   \<and> ecdsa_educational_verify 2 3 97 3 7 5 80 87 3 1 ''hi'' =
        Inr (VerifyFailure (GeneratorNotOnCurve 3 7) [])
   \<and> (6 * 6 - (3 ^ 3 + 2 * 3 + 3)) mod (97::int) = 0
   \<and> (86 * 86 - (80 ^ 3 + 2 * 80 + 3)) mod (97::int) \<noteq> 0
   \<and> ecdsa_educational_verify 2 3 97 3 6 5 80 86 3 1 ''hi'' =
        Inr (VerifyFailure (PublicKeyNotOnCurve 80 86) [])"
  using ecdsa_point_not_on_curve [of 97 7 3 2 3 5 "- 3" 1 "''hi''" 80 87 3 1]
        ecdsa_point_not_on_curve [of 97 6 3 2 3 5 3 1 "''hi''" 80 86 3 1]
  by simp

text \<open>
  Claim C1 as stated fails: on \<open>a=2, b=3, p=97, G=(3,6), n=5, d=3, k=2\<close> and message
  \<open>Test\<close>, ECDSA sign returns no signature.
\<close>

theorem ecdsa_sign_example_fails_counterexample:
  "\<not> returns_signature (ecdsa_educational_sign 2 3 97 3 6 5 3 2 ''Test'')"
  by (simp add: returns_signature_def ecdsa_educational_sign_def is_on_curve_def
        scalar_multiply_steps_def binary_digits.simps point_add_def slope_operands_def
        mod_inverse_def extended_gcd.simps Let_def)

text \<open>
  Claim C1, as the code has it: on these inputs \<open>k * G = 2 * G = (80, 10)\<close> and
  \<open>r = 80 mod 5 = 0\<close>, so ECDSA sign returns the error for \<open>r = 0\<close> with the records of
  steps 0 to 3; there is no signature to verify.
\<close>

theorem ecdsa_sign_example_r_zero:
  "ecdsa_educational_sign 2 3 97 3 6 5 3 2 ''Test'' =
     Inr (SignFailure RZero
       [\<lparr>step = 0, result = NoResult, extras = []\<rparr>,
        \<lparr>step = 1, result = PointResult (Some (80, 87)),
           extras = [ScalarMultiplicationSteps
                       [Info 3 ''11'', AddStep 0 (Some (3, 6)) (Some (3, 6)),
                        AddStep 1 (Some (80, 10)) (Some (80, 87))],
                     TotalOperations 3]\<rparr>,
        \<lparr>step = 2, result = IntResult 0, extras = [HashFull
           37624419805439260122109877671597282370833625459492083204494327308667894128165]\<rparr>,
        \<lparr>step = 3, result = PointResult (Some (80, 10)),
           extras = [ScalarMultiplicationSteps
                       [Info 2 ''10'', SkipStep 0, AddStep 1 (Some (80, 10)) (Some (80, 10))]]\<rparr>])"
  by (simp add: ecdsa_educational_sign_def is_on_curve_def
        scalar_multiply_steps_def binary_digits.simps point_add_def slope_operands_def
        mod_inverse_def extended_gcd.simps Let_def first_five_def hash_message_Test)

section \<open>Odd primes and the denominators of the slope\<close>

lemma odd_prime_gt: "odd_prime p \<Longrightarrow> 2 < p"
  by (simp add: odd_prime_def)

lemma odd_prime_coprime:
  assumes "odd_prime p" "0 < x" "x < p"
  shows "gcd x p = 1"
proof -
  let ?g = "gcd x p"
  have gx: "?g dvd x" and gp: "?g dvd p" by simp_all
  have pos: "0 < ?g" using assms(2) by (simp add: gcd_pos_int)
  have "?g \<le> x" using gx assms(2) by (rule zdvd_imp_le)
  with assms(3) have lt: "?g < p" by simp
  have "\<not> 2 \<le> ?g"
  proof
    assume "2 \<le> ?g"
    with lt have "?g \<in> {2..<p}" by simp
    with assms(1) gp show False by (auto simp: odd_prime_def)
  qed
  with pos show ?thesis by linarith
qed

lemma odd_prime_mod_inverse:
  assumes "odd_prime p" "d mod p \<noteq> 0"
  shows "\<exists>i. mod_inverse d p = Inr i \<and> 0 \<le> i \<and> i < p \<and> (d * i) mod p = 1"
proof -
  from assms(1) have p: "1 < p" by (simp add: odd_prime_def)
  then have "0 \<le> d mod p" "d mod p < p" by simp_all
  with assms have "gcd (d mod p) p = 1"
    by (intro odd_prime_coprime) simp_all
  then have "\<not> (\<exists>e. mod_inverse d p = Inl e)"
    using mod_inverse_Inl [OF p, of d] by simp
  then obtain i where i: "mod_inverse d p = Inr i"
    by (cases "mod_inverse d p") auto
  from mod_inverse_Inr [OF p i] i show ?thesis by simp
qed

lemma odd_prime_dvd_mult:
  assumes "odd_prime p" "p dvd a * b"
  shows "p dvd a \<or> p dvd b"
proof (cases "p dvd a")
  case True
  then show ?thesis by simp
next
  case False
  from assms(1) have p: "1 < p" by (simp add: odd_prime_def)
  from False have "a mod p \<noteq> 0" by (simp add: dvd_eq_mod_eq_0)
  moreover have "0 \<le> a mod p" "a mod p < p" using p by simp_all
  ultimately have "gcd (a mod p) p = 1"
    using assms(1) by (intro odd_prime_coprime) simp_all
  then have "gcd p a = 1"
    using gcd_red_int [of a p] by (simp add: gcd.commute)
  then have "coprime p a" by (simp add: coprime_iff_gcd_eq_1)
  with assms(2) have "p dvd b"
    by (simp add: coprime_dvd_mult_right_iff)
  then show ?thesis by simp
qed

lemma doubling_denominator:
  assumes "odd_prime p" "0 \<le> y" "y < p" "y \<noteq> 0"
  shows "(2 * y) mod p \<noteq> 0"
proof
  assume "(2 * y) mod p = 0"
  then have "p dvd 2 * y" by (simp add: dvd_eq_mod_eq_0)
  with assms(1) have "p dvd 2 \<or> p dvd y" by (rule odd_prime_dvd_mult)
  moreover have "\<not> p dvd 2"
    using odd_prime_gt [OF assms(1)] zdvd_imp_le [of p 2] by auto
  moreover have "\<not> p dvd y"
    using assms zdvd_imp_le [of p y] by auto
  ultimately show False by simp
qed

lemma addition_denominator:
  fixes p :: int
  assumes "0 \<le> x1" "x1 < p" "0 \<le> x2" "x2 < p" "x1 \<noteq> x2"
  shows "(x2 - x1) mod p \<noteq> 0"
proof
  assume "(x2 - x1) mod p = 0"
  then have "p dvd x2 - x1" by (simp add: dvd_eq_mod_eq_0)
  moreover have "x2 - x1 \<noteq> 0" using assms by simp
  ultimately have "\<bar>p\<bar> \<le> \<bar>x2 - x1\<bar>" by (simp add: dvd_imp_le_int)
  with assms show False by linarith
qed

lemma slope_operands_invertible:
  assumes "odd_prime (curve_p cv)"
    and "in_range cv (Some (x1, y1))" and "in_range cv (Some (x2, y2))"
    and "slope_operands cv (x1, y1) (x2, y2) = Some (num, den)"
  shows "den mod curve_p cv \<noteq> 0"
proof (cases "(x1, y1) = (x2, y2)")
  case True
  with assms(4) have y: "y1 \<noteq> 0" and den: "den = (2 * y1) mod curve_p cv"
    by (auto simp: slope_operands_def split: if_splits)
  from assms(2) have "0 \<le> y1" "y1 < curve_p cv" by (simp_all add: in_range_def)
  from doubling_denominator [OF assms(1) this y] den show ?thesis by simp
next
  case False
  with assms(4) have x: "x1 \<noteq> x2" and den: "den = (x2 - x1) mod curve_p cv"
    by (auto simp: slope_operands_def split: if_splits)
  from assms(2,3) have "0 \<le> x1" "x1 < curve_p cv" "0 \<le> x2" "x2 < curve_p cv"
    by (simp_all add: in_range_def)
  from addition_denominator [OF this x] den show ?thesis by simp
qed

lemma point_add_returns:
  assumes "odd_prime (curve_p cv)" and "in_range cv P" and "in_range cv Q"
  shows "\<exists>R. point_add cv P Q = Inr R"
proof (cases P)
  case None
  then show ?thesis by (simp add: point_add_def)
next
  case (Some c)
  obtain x1 y1 where c: "c = (x1, y1)" by (cases c)
  show ?thesis
  proof (cases Q)
    case None
    with Some show ?thesis by (simp add: point_add_def c)
  next
    case (Some e)
    obtain x2 y2 where e: "e = (x2, y2)" by (cases e)
    show ?thesis
    proof (cases "slope_operands cv (x1, y1) (x2, y2)")
      case None
      with \<open>P = Some c\<close> Some c e show ?thesis by (simp add: point_add_def)
    next
      case (Some nd)
      obtain num den where nd: "nd = (num, den)" by (cases nd)
      from slope_operands_invertible [OF assms(1), of x1 y1 x2 y2 num den]
           assms(2,3) \<open>P = Some c\<close> \<open>Q = Some e\<close> c e Some nd
      have "den mod curve_p cv \<noteq> 0" by simp
      from odd_prime_mod_inverse [OF assms(1) this]
      obtain i where "mod_inverse den (curve_p cv) = Inr i" by blast
      moreover have "curve_p cv \<noteq> 0" using odd_prime_gt [OF assms(1)] by simp
      ultimately show ?thesis
        using \<open>P = Some c\<close> \<open>Q = Some e\<close> c e Some nd
        by (simp add: point_add_def Let_def)
    qed
  qed
qed

text \<open>
  Claim C6, as the code has it. On a curve whose modulus is an odd prime, for all points
  \<open>P\<close> and \<open>Q\<close> with coordinates in \<open>[0, p)\<close> (on the curve or not): every denominator
  that \<open>point_add\<close> hands to \<open>mod_inverse\<close> (\<open>2 * y1 mod p\<close> when doubling,
  \<open>(x2 - x1) mod p\<close> when adding) is not 0 modulo \<open>p\<close> and has an inverse, the cases
  \<open>y1 = 0\<close> and \<open>x1 = x2\<close> having returned the point at infinity before; so
  \<open>point_add\<close> returns a point and raises nothing.
\<close>

theorem point_add_inverts_nonzero_only:
  assumes "odd_prime (curve_p cv)" and "in_range cv P" and "in_range cv Q"
  shows "(\<exists>R. point_add cv P Q = Inr R)
       \<and> (\<forall>x1 y1 x2 y2 num den.
             P = Some (x1, y1) \<and> Q = Some (x2, y2)
             \<and> slope_operands cv (x1, y1) (x2, y2) = Some (num, den) \<longrightarrow>
             den mod curve_p cv \<noteq> 0 \<and> (\<exists>i. mod_inverse den (curve_p cv) = Inr i))"
proof -
  have "\<forall>x1 y1 x2 y2 num den.
             P = Some (x1, y1) \<and> Q = Some (x2, y2)
             \<and> slope_operands cv (x1, y1) (x2, y2) = Some (num, den) \<longrightarrow>
             den mod curve_p cv \<noteq> 0 \<and> (\<exists>i. mod_inverse den (curve_p cv) = Inr i)"
  proof (intro allI impI)
    fix x1 y1 x2 y2 num den
    assume h: "P = Some (x1, y1) \<and> Q = Some (x2, y2)
             \<and> slope_operands cv (x1, y1) (x2, y2) = Some (num, den)"
    from slope_operands_invertible [OF assms(1), of x1 y1 x2 y2 num den] assms(2,3) h
    have nz: "den mod curve_p cv \<noteq> 0" by simp
    from odd_prime_mod_inverse [OF assms(1) nz] nz
    show "den mod curve_p cv \<noteq> 0 \<and> (\<exists>i. mod_inverse den (curve_p cv) = Inr i)"
      by blast
  qed
  with point_add_returns [OF assms] show ?thesis by (rule conjI)
qed

section \<open>The tangent and the chord stay on the curve\<close>

lemma slope_times_denominator:
  assumes "1 < p" "mod_inverse (D mod p) p = Inr i"
  shows "p dvd ((N mod p * i) mod p) * D - N"
proof -
  from mod_inverse_Inr [OF assms] have "((D mod p) * i) mod p = 1" by simp
  then have one: "(i * D) mod p = 1" by (simp add: mod_simps mult.commute)
  have "(((N mod p * i) mod p) * D) mod p = (N * (i * D)) mod p"
    by (simp add: mod_simps mult.assoc)
  also have "\<dots> = (N * ((i * D) mod p)) mod p"
    by (simp add: mod_simps)
  also have "\<dots> = N mod p" using one by simp
  finally show ?thesis by (simp add: mod_eq_dvd_iff)
qed

lemma curve_equation_cong:
  fixes p :: int
  assumes "x mod p = x' mod p" "y mod p = y' mod p"
  shows "(y * y - (x ^ 3 + a * x + b)) mod p = (y' * y' - (x' ^ 3 + a * x' + b)) mod p"
proof -
  have 1: "(y * y) mod p = (y' * y') mod p"
    using assms(2) by (rule mod_mult_cong) (rule assms(2))
  have 2: "(x ^ 3) mod p = (x' ^ 3) mod p"
    using assms(1) by (metis power_mod)
  have 3: "(a * x) mod p = (a * x') mod p"
    using refl assms(1) by (rule mod_mult_cong)
  have "(x ^ 3 + a * x + b) mod p = (x' ^ 3 + a * x' + b) mod p"
    by (intro mod_add_cong 2 3 refl)
  with 1 show ?thesis by (rule mod_diff_cong)
qed

lemma tangent_closed:
  fixes p :: int
  assumes "p dvd y1 * y1 - (x1 ^ 3 + a * x1 + b)"
    and "p dvd L * (2 * y1) - (3 * x1 * x1 + a)"
  shows "p dvd (L * (x1 - (L * L - x1 - x1)) - y1) * (L * (x1 - (L * L - x1 - x1)) - y1)
           - ((L * L - x1 - x1) ^ 3 + a * (L * L - x1 - x1) + b)"
    (is "p dvd ?T")
proof -
  let ?E1 = "y1 * y1 - (x1 ^ 3 + a * x1 + b)"
  let ?R = "L * (2 * y1) - (3 * x1 * x1 + a)"
  have eq: "?T = ?E1 + ?R * ((L * L - x1 - x1) - x1)"
    by algebra
  have "p dvd ?E1 + ?R * ((L * L - x1 - x1) - x1)"
    by (rule dvd_add [OF assms(1) dvd_mult2 [OF assms(2)]])
  then show ?thesis by (simp only: eq)
qed

lemma chord_closed:
  fixes p :: int
  assumes "odd_prime p" and "\<not> p dvd x2 - x1"
    and "p dvd y1 * y1 - (x1 ^ 3 + a * x1 + b)"
    and "p dvd y2 * y2 - (x2 ^ 3 + a * x2 + b)"
    and "p dvd L * (x2 - x1) - (y2 - y1)"
  shows "p dvd (L * (x1 - (L * L - x1 - x2)) - y1) * (L * (x1 - (L * L - x1 - x2)) - y1)
           - ((L * L - x1 - x2) ^ 3 + a * (L * L - x1 - x2) + b)"
    (is "p dvd ?T")
proof -
  let ?E1 = "y1 * y1 - (x1 ^ 3 + a * x1 + b)"
  let ?E2 = "y2 * y2 - (x2 ^ 3 + a * x2 + b)"
  let ?R = "L * (x2 - x1) - (y2 - y1)"
  let ?Z = "(L * L - x1 - x2) - x1"
  have eq: "(x2 - x1) * ?T = (x2 - x1) * ?E1 + ?Z * (?E2 + ?R * ?R + 2 * ?R * y2 - ?E1)"
    by algebra
  have r2: "p dvd ?R * ?R" by (rule dvd_mult [OF assms(5)])
  have ry: "p dvd 2 * ?R * y2" by (rule dvd_mult2 [OF dvd_mult [OF assms(5)]])
  have "p dvd ?E2 + ?R * ?R + 2 * ?R * y2 - ?E1"
    by (rule dvd_diff [OF dvd_add [OF dvd_add [OF assms(4) r2] ry] assms(3)])
  then have "p dvd (x2 - x1) * ?E1 + ?Z * (?E2 + ?R * ?R + 2 * ?R * y2 - ?E1)"
    by (intro dvd_add dvd_mult [OF assms(3)]) (rule dvd_mult)
  then have "p dvd (x2 - x1) * ?T" by (simp only: eq)
  with assms(1) have "p dvd x2 - x1 \<or> p dvd ?T" by (rule odd_prime_dvd_mult)
  with assms(2) show ?thesis by simp
qed

lemma point_add_finite:
  assumes "curve_p cv \<noteq> 0"
    and "slope_operands cv (x1, y1) (x2, y2) = Some (num, den)"
    and "mod_inverse den (curve_p cv) = Inr i"
    and "L = (num * i) mod curve_p cv"
    and "x3 = (L * L - x1 - x2) mod curve_p cv"
  shows "point_add cv (Some (x1, y1)) (Some (x2, y2)) =
           Inr (Some (x3, (L * (x1 - x3) - y1) mod curve_p cv))"
  using assms by (simp add: point_add_def Let_def)

lemma result_on_curve:
  fixes p :: int
  assumes "p dvd (L * (x1 - X) - y1) * (L * (x1 - X) - y1) - (X ^ 3 + a * X + b)"
    and "x3 = X mod p" and "y3 = (L * (x1 - x3) - y1) mod p"
  shows "(y3 * y3 - (x3 ^ 3 + a * x3 + b)) mod p = 0"
proof -
  have x: "x3 mod p = X mod p" using assms(2) by simp
  have "(x1 - x3) mod p = (x1 - X) mod p"
    using refl x by (rule mod_diff_cong)
  then have "(L * (x1 - x3)) mod p = (L * (x1 - X)) mod p"
    using refl by (intro mod_mult_cong) 
  then have "(L * (x1 - x3) - y1) mod p = (L * (x1 - X) - y1) mod p"
    using refl by (intro mod_diff_cong)
  then have y: "y3 mod p = (L * (x1 - X) - y1) mod p" using assms(3) by simp
  have "(y3 * y3 - (x3 ^ 3 + a * x3 + b)) mod p =
        ((L * (x1 - X) - y1) * (L * (x1 - X) - y1) - (X ^ 3 + a * X + b)) mod p"
    using x y by (rule curve_equation_cong)
  with assms(1) show ?thesis by (simp add: dvd_eq_mod_eq_0)
qed

lemma curve_point_finite:
  "curve_point cv (Some (x, y)) \<longleftrightarrow>
     curve_p cv \<noteq> 0 \<and> 0 \<le> x \<and> x < curve_p cv \<and> 0 \<le> y \<and> y < curve_p cv
     \<and> (y * y - (x ^ 3 + curve_a cv * x + curve_b cv)) mod curve_p cv = 0"
  by (auto simp: curve_point_def in_range_def is_on_curve_def)

lemma curve_point_in_range: "curve_point cv P \<Longrightarrow> in_range cv P"
  by (simp add: curve_point_def)

lemma congruent_form:
  fixes p :: int
  shows "(u - v) mod p = 0 \<longleftrightarrow> u mod p = v mod p"
  by (simp add: mod_eq_dvd_iff dvd_eq_mod_eq_0)

lemma point_add_closed_finite:
  assumes op: "odd_prime (curve_p cv)"
    and P: "curve_point cv (Some (x1, y1))" and Q: "curve_point cv (Some (x2, y2))"
    and so: "slope_operands cv (x1, y1) (x2, y2) = Some (num, den)"
  shows "\<exists>x3 y3. point_add cv (Some (x1, y1)) (Some (x2, y2)) = Inr (Some (x3, y3))
           \<and> curve_point cv (Some (x3, y3))"
proof -
  let ?p = "curve_p cv" and ?a = "curve_a cv" and ?b = "curve_b cv"
  from op have p1: "1 < ?p" and p0: "?p \<noteq> 0" by (simp_all add: odd_prime_def)
  from P have E1: "?p dvd y1 * y1 - (x1 ^ 3 + ?a * x1 + ?b)"
    by (simp add: curve_point_finite dvd_eq_mod_eq_0)
  from Q have E2: "?p dvd y2 * y2 - (x2 ^ 3 + ?a * x2 + ?b)"
    by (simp add: curve_point_finite dvd_eq_mod_eq_0)
  have nz: "den mod ?p \<noteq> 0"
    using slope_operands_invertible [OF op curve_point_in_range [OF P]
            curve_point_in_range [OF Q] so] .
  from odd_prime_mod_inverse [OF op nz] obtain i where i: "mod_inverse den ?p = Inr i"
    by blast
  define L where "L = (num * i) mod ?p"
  define X where "X = L * L - x1 - x2"
  define x3 where "x3 = X mod ?p"
  define y3 where "y3 = (L * (x1 - x3) - y1) mod ?p"
  have pa: "point_add cv (Some (x1, y1)) (Some (x2, y2)) = Inr (Some (x3, y3))"
    unfolding y3_def
    by (rule point_add_finite [OF p0 so i L_def]) (simp add: x3_def X_def)
  have T: "?p dvd (L * (x1 - X) - y1) * (L * (x1 - X) - y1) - (X ^ 3 + ?a * X + ?b)"
  proof (cases "(x1, y1) = (x2, y2)")
    case True
    with so have num: "num = (3 * x1 * x1 + ?a) mod ?p" and den: "den = (2 * y1) mod ?p"
      by (auto simp: slope_operands_def split: if_splits)
    from i den have "mod_inverse ((2 * y1) mod ?p) ?p = Inr i" by simp
    from slope_times_denominator [OF p1 this, of "3 * x1 * x1 + ?a"]
    have R: "?p dvd L * (2 * y1) - (3 * x1 * x1 + ?a)"
      by (simp add: L_def num)
    from tangent_closed [OF E1 R] True show ?thesis by (simp add: X_def)
  next
    case False
    with so have x: "x1 \<noteq> x2" and num: "num = (y2 - y1) mod ?p"
      and den: "den = (x2 - x1) mod ?p"
      by (auto simp: slope_operands_def split: if_splits)
    from i den have "mod_inverse ((x2 - x1) mod ?p) ?p = Inr i" by simp
    from slope_times_denominator [OF p1 this, of "y2 - y1"]
    have R: "?p dvd L * (x2 - x1) - (y2 - y1)"
      by (simp add: L_def num)
    from nz den have nd: "\<not> ?p dvd x2 - x1" by (simp add: dvd_eq_mod_eq_0)
    from chord_closed [OF op nd E1 E2 R] show ?thesis by (simp add: X_def)
  qed
  from result_on_curve [OF T x3_def y3_def]
  have "(y3 * y3 - (x3 ^ 3 + ?a * x3 + ?b)) mod ?p = 0" .
  moreover have "0 \<le> x3" "x3 < ?p" "0 \<le> y3" "y3 < ?p"
    using p1 by (simp_all add: x3_def y3_def)
  ultimately have "curve_point cv (Some (x3, y3))"
    using p0 by (simp add: curve_point_finite)
  with pa show ?thesis by blast
qed

text \<open>
  Claim C2. On a curve whose modulus \<open>p\<close> is an odd prime, for all \<open>P\<close> and \<open>Q\<close> on the
  curve (the point at infinity, or coordinates in \<open>[0, p)\<close> that satisfy the curve
  equation), \<open>point_add(P, Q)\<close> returns a point that is on the curve again: the point at
  infinity, or \<open>(x3, y3)\<close> with \<open>y3 * y3\<close> congruent to \<open>x3^3 + a * x3 + b\<close> modulo
  \<open>p\<close>.
\<close>

theorem point_add_on_curve:
  assumes "odd_prime (curve_p cv)" and "curve_point cv P" and "curve_point cv Q"
  shows "\<exists>R. point_add cv P Q = Inr R \<and> curve_point cv R
           \<and> (R = None \<or> (\<exists>x3 y3. R = Some (x3, y3)
                \<and> (y3 * y3) mod curve_p cv
                    = (x3 ^ 3 + curve_a cv * x3 + curve_b cv) mod curve_p cv))"
proof -
  have fin: "R = None \<or> (\<exists>x3 y3. R = Some (x3, y3)
                \<and> (y3 * y3) mod curve_p cv
                    = (x3 ^ 3 + curve_a cv * x3 + curve_b cv) mod curve_p cv)"
    if "curve_point cv R" for R
  proof (cases R)
    case None
    then show ?thesis by simp
  next
    case (Some c)
    obtain x y where "c = (x, y)" by (cases c)
    with that Some show ?thesis
      by (simp add: curve_point_finite congruent_form)
  qed
  have inf: "curve_point cv None"
    by (simp add: curve_point_def in_range_def is_on_curve_def)
  have "\<exists>R. point_add cv P Q = Inr R \<and> curve_point cv R"
  proof (cases P)
    case None
    with assms(3) show ?thesis by (simp add: point_add_def)
  next
    case (Some c)
    obtain x1 y1 where c: "c = (x1, y1)" by (cases c)
    show ?thesis
    proof (cases Q)
      case None
      with \<open>P = Some c\<close> assms(2) show ?thesis by (simp add: point_add_def c)
    next
      case (Some e)
      obtain x2 y2 where e: "e = (x2, y2)" by (cases e)
      show ?thesis
      proof (cases "slope_operands cv (x1, y1) (x2, y2)")
        case None
        with \<open>P = Some c\<close> Some c e inf show ?thesis by (simp add: point_add_def)
      next
        case (Some nd)
        obtain num den where nd: "nd = (num, den)" by (cases nd)
        from point_add_closed_finite [OF assms(1), of x1 y1 x2 y2 num den]
             assms(2,3) \<open>P = Some c\<close> \<open>Q = Some e\<close> c e Some nd
        show ?thesis by auto
      qed
    qed
  qed
  with fin show ?thesis by blast
qed

section \<open>The group law\<close>

lemma point_add_infinity_right: "point_add cv P None = Inr P"
  by (cases P) (auto simp: point_add_def)

lemma point_add_infinity_left: "point_add cv None Q = Inr Q"
  by (simp add: point_add_def)

lemma point_add_commute_finite:
  assumes op: "odd_prime (curve_p cv)"
    and P: "in_range cv (Some (x1, y1))" and Q: "in_range cv (Some (x2, y2))"
    and x: "x1 \<noteq> x2"
  shows "point_add cv (Some (x1, y1)) (Some (x2, y2)) =
         point_add cv (Some (x2, y2)) (Some (x1, y1))"
proof -
  let ?p = "curve_p cv"
  from op have p1: "1 < ?p" and p0: "?p \<noteq> 0" by (simp_all add: odd_prime_def)
  have so1: "slope_operands cv (x1, y1) (x2, y2) = Some ((y2 - y1) mod ?p, (x2 - x1) mod ?p)"
    using x by (simp add: slope_operands_def)
  have so2: "slope_operands cv (x2, y2) (x1, y1) = Some ((y1 - y2) mod ?p, (x1 - x2) mod ?p)"
    using x by (auto simp: slope_operands_def)
  from slope_operands_invertible [OF op P Q so1]
  have nz1: "(x2 - x1) mod ?p \<noteq> 0" by simp
  from slope_operands_invertible [OF op Q P so2]
  have nz2: "(x1 - x2) mod ?p \<noteq> 0" by simp
  from odd_prime_mod_inverse [OF op, of "(x2 - x1) mod ?p"] nz1
  obtain i1 where i1: "mod_inverse ((x2 - x1) mod ?p) ?p = Inr i1" by auto
  from odd_prime_mod_inverse [OF op, of "(x1 - x2) mod ?p"] nz2
  obtain i2 where i2: "mod_inverse ((x1 - x2) mod ?p) ?p = Inr i2" by auto
  define L1 where "L1 = ((y2 - y1) mod ?p * i1) mod ?p"
  define L2 where "L2 = ((y1 - y2) mod ?p * i2) mod ?p"
  have d1: "?p dvd L1 * (x2 - x1) - (y2 - y1)"
    unfolding L1_def by (rule slope_times_denominator [OF p1 i1])
  have d2: "?p dvd L2 * (x1 - x2) - (y1 - y2)"
    unfolding L2_def by (rule slope_times_denominator [OF p1 i2])
  have "(L1 - L2) * (x2 - x1) = (L1 * (x2 - x1) - (y2 - y1)) + (L2 * (x1 - x2) - (y1 - y2))"
    by algebra
  with dvd_add [OF d1 d2] have "?p dvd (L1 - L2) * (x2 - x1)" by (simp only:)
  with op have "?p dvd L1 - L2 \<or> ?p dvd x2 - x1" by (rule odd_prime_dvd_mult)
  moreover from nz1 have "\<not> ?p dvd x2 - x1" by (simp add: dvd_eq_mod_eq_0)
  ultimately have "?p dvd L1 - L2" by simp
  then have "L1 mod ?p = L2 mod ?p" by (simp add: mod_eq_dvd_iff)
  then have L: "L1 = L2" by (simp add: L1_def L2_def)
  define x3 where "x3 = (L1 * L1 - x1 - x2) mod ?p"
  have x3': "x3 = (L2 * L2 - x2 - x1) mod ?p"
    by (simp add: x3_def L algebra_simps)
  have eq: "(L1 * (x1 - x3) - y1) - (L1 * (x2 - x3) - y2) = - (L1 * (x2 - x1) - (y2 - y1))"
    by algebra
  from d1 have "?p dvd - (L1 * (x2 - x1) - (y2 - y1))" by (simp only: dvd_minus_iff)
  then have "?p dvd (L1 * (x1 - x3) - y1) - (L1 * (x2 - x3) - y2)" by (simp only: eq)
  then have y3: "(L1 * (x1 - x3) - y1) mod ?p = (L2 * (x2 - x3) - y2) mod ?p"
    by (simp add: mod_eq_dvd_iff L)
  have "point_add cv (Some (x1, y1)) (Some (x2, y2)) =
          Inr (Some (x3, (L1 * (x1 - x3) - y1) mod ?p))"
    by (rule point_add_finite [OF p0 so1 i1 L1_def x3_def])
  moreover have "point_add cv (Some (x2, y2)) (Some (x1, y1)) =
          Inr (Some (x3, (L2 * (x2 - x3) - y2) mod ?p))"
    by (rule point_add_finite [OF p0 so2 i2 L2_def x3'])
  ultimately show ?thesis using y3 by simp
qed

lemma point_add_commute:
  assumes "odd_prime (curve_p cv)" and "in_range cv P" and "in_range cv Q"
  shows "point_add cv P Q = point_add cv Q P"
proof (cases P)
  case None
  then show ?thesis by (simp add: point_add_infinity_left point_add_infinity_right)
next
  case (Some c)
  obtain x1 y1 where c: "c = (x1, y1)" by (cases c)
  show ?thesis
  proof (cases Q)
    case None
    then show ?thesis by (simp add: point_add_infinity_left point_add_infinity_right)
  next
    case (Some e)
    obtain x2 y2 where e: "e = (x2, y2)" by (cases e)
    show ?thesis
    proof (cases "x1 = x2")
      case True
      show ?thesis
      proof (cases "y1 = y2")
        case True
        with \<open>x1 = x2\<close> \<open>P = Some c\<close> \<open>Q = Some e\<close> c e show ?thesis by simp
      next
        case False
        with \<open>x1 = x2\<close> have "slope_operands cv (x1, y1) (x2, y2) = None"
          "slope_operands cv (x2, y2) (x1, y1) = None"
          by (auto simp: slope_operands_def)
        with \<open>P = Some c\<close> \<open>Q = Some e\<close> c e show ?thesis by (simp add: point_add_def)
      qed
    next
      case False
      from point_add_commute_finite [OF assms(1) _ _ False, of y1 y2]
           assms(2,3) \<open>P = Some c\<close> \<open>Q = Some e\<close> c e
      show ?thesis by simp
    qed
  qed
qed

lemma binary_digits_2: "binary_digits 2 = ''10''"
  by (simp add: binary_digits.simps)

lemma scalar_multiply_two: "scalar_multiply cv 2 P = point_add cv P P"
proof (cases P)
  case None
  then show ?thesis
    by (simp add: scalar_multiply_def scalar_multiply_steps_def point_add_def)
next
  case (Some c)
  then show ?thesis
    by (cases "point_add cv (Some c) (Some c)")
       (simp_all add: scalar_multiply_def scalar_multiply_steps_def binary_digits_2
          point_add_infinity_left Let_def)
qed

lemma scalar_multiply_zero: "scalar_multiply cv 0 P = Inr None"
  by (simp add: scalar_multiply_def scalar_multiply_steps_def)

text \<open>
  Claim C3, as the code has it. On a curve whose modulus \<open>p\<close> is an odd prime, for all
  points \<open>P\<close> and \<open>Q\<close> on the curve with coordinates in \<open>[0, p)\<close>:
  \<open>point_add(P, Infinity)\<close> is \<open>P\<close>; \<open>point_add(P, Q)\<close> and \<open>point_add(Q, P)\<close> return
  the same point; \<open>scalar_multiply(2, P)\<close> returns the point that \<open>point_add(P, P)\<close>
  returns; \<open>scalar_multiply(0, P)\<close> is the point at infinity.
\<close>

theorem curve_group_law:
  assumes "odd_prime (curve_p cv)" and "curve_point cv P" and "curve_point cv Q"
  shows "point_add cv P None = Inr P
       \<and> point_add cv P Q = point_add cv Q P
       \<and> (\<exists>R. point_add cv P Q = Inr R)
       \<and> scalar_multiply cv 2 P = point_add cv P P
       \<and> (\<exists>R. point_add cv P P = Inr R)
       \<and> scalar_multiply cv 0 P = Inr None"
proof -
  from assms(2,3) have r: "in_range cv P" "in_range cv Q"
    by (simp_all add: curve_point_def)
  show ?thesis
    using point_add_commute [OF assms(1) r] point_add_returns [OF assms(1) r]
          point_add_returns [OF assms(1) r(1) r(1)]
    by (simp add: point_add_infinity_right scalar_multiply_two scalar_multiply_zero)
qed

section \<open>The group law on an example curve\<close>

text \<open>
  The curve \<open>y^2 = x^3 + 2x + 3\<close> modulo 97 with the points \<open>G = (3, 6)\<close> and
  \<open>2G = (80, 10)\<close>.
\<close>

lemma odd_prime_97: "odd_prime 97"
  by code_simp

lemma example_points:
  "curve_point \<lparr>curve_a = 2, curve_b = 3, curve_p = 97\<rparr> (Some (3, 6))"
  "curve_point \<lparr>curve_a = 2, curve_b = 3, curve_p = 97\<rparr> (Some (80, 10))"
  by (simp_all add: curve_point_def in_range_def is_on_curve_def)

lemma example_sum:
  "point_add \<lparr>curve_a = 2, curve_b = 3, curve_p = 97\<rparr> (Some (3, 6)) (Some (80, 10))
     = Inr (Some (80, 87))"
  by (simp add: point_add_def slope_operands_def mod_inverse_def extended_gcd.simps Let_def)

lemma example_double:
  "point_add \<lparr>curve_a = 2, curve_b = 3, curve_p = 97\<rparr> (Some (3, 6)) (Some (3, 6))
     = Inr (Some (80, 10))"
  by (simp add: point_add_def slope_operands_def mod_inverse_def extended_gcd.simps Let_def)

theorem point_add_on_curve_witness:
  "odd_prime (curve_p \<lparr>curve_a = 2, curve_b = 3, curve_p = 97\<rparr>)
   \<and> curve_point \<lparr>curve_a = 2, curve_b = 3, curve_p = 97\<rparr> (Some (3, 6))
   \<and> curve_point \<lparr>curve_a = 2, curve_b = 3, curve_p = 97\<rparr> (Some (80, 10))
   \<and> point_add \<lparr>curve_a = 2, curve_b = 3, curve_p = 97\<rparr> (Some (3, 6)) (Some (80, 10))
       = Inr (Some (80, 87))
   \<and> curve_point \<lparr>curve_a = 2, curve_b = 3, curve_p = 97\<rparr> (Some (80, 87))
   \<and> (87 * 87) mod 97 = (80 ^ 3 + 2 * 80 + 3) mod (97::int)"
proof -
  have op: "odd_prime (curve_p \<lparr>curve_a = 2, curve_b = 3, curve_p = 97\<rparr>)"
    by (simp add: odd_prime_97)
  from point_add_on_curve [OF op example_points] example_sum
  have "curve_point \<lparr>curve_a = 2, curve_b = 3, curve_p = 97\<rparr> (Some (80, 87))
      \<and> (87 * 87) mod 97 = (80 ^ 3 + 2 * 80 + 3) mod (97::int)"
    by simp
  with op example_points example_sum show ?thesis by simp
qed

theorem curve_group_law_witness:
  "odd_prime (curve_p \<lparr>curve_a = 2, curve_b = 3, curve_p = 97\<rparr>)
   \<and> curve_point \<lparr>curve_a = 2, curve_b = 3, curve_p = 97\<rparr> (Some (3, 6))
   \<and> curve_point \<lparr>curve_a = 2, curve_b = 3, curve_p = 97\<rparr> (Some (80, 10))
   \<and> point_add \<lparr>curve_a = 2, curve_b = 3, curve_p = 97\<rparr> (Some (3, 6)) None = Inr (Some (3, 6))
   \<and> point_add \<lparr>curve_a = 2, curve_b = 3, curve_p = 97\<rparr> (Some (80, 10)) (Some (3, 6))
       = Inr (Some (80, 87))
   \<and> scalar_multiply \<lparr>curve_a = 2, curve_b = 3, curve_p = 97\<rparr> 2 (Some (3, 6))
       = Inr (Some (80, 10))
   \<and> scalar_multiply \<lparr>curve_a = 2, curve_b = 3, curve_p = 97\<rparr> 0 (Some (3, 6)) = Inr None"
proof -
  have op: "odd_prime (curve_p \<lparr>curve_a = 2, curve_b = 3, curve_p = 97\<rparr>)"
    by (simp add: odd_prime_97)
  from curve_group_law [OF op example_points] example_sum example_double
  have "point_add \<lparr>curve_a = 2, curve_b = 3, curve_p = 97\<rparr> (Some (3, 6)) None = Inr (Some (3, 6))
   \<and> point_add \<lparr>curve_a = 2, curve_b = 3, curve_p = 97\<rparr> (Some (80, 10)) (Some (3, 6))
       = Inr (Some (80, 87))
   \<and> scalar_multiply \<lparr>curve_a = 2, curve_b = 3, curve_p = 97\<rparr> 2 (Some (3, 6))
       = Inr (Some (80, 10))
   \<and> scalar_multiply \<lparr>curve_a = 2, curve_b = 3, curve_p = 97\<rparr> 0 (Some (3, 6)) = Inr None"
    by simp
  with op example_points show ?thesis by simp
qed

text \<open>
  Claim C3 as stated fails for points that pass \<open>is_on_curve\<close> with a coordinate
  outside \<open>[0, p)\<close>: modulo 97, \<open>(3, 6)\<close> and \<open>(100, 6)\<close> are both accepted, and
  \<open>point_add\<close> raises on them in both orders, so neither call returns a point to
  compare; \<open>(96, 97)\<close> is accepted and \<open>scalar_multiply(2, (96, 97))\<close> raises.
\<close>

theorem group_law_out_of_range_counterexample:
  "is_on_curve \<lparr>curve_a = 2, curve_b = 3, curve_p = 97\<rparr> (Some (3, 6)) = Inr True
   \<and> is_on_curve \<lparr>curve_a = 2, curve_b = 3, curve_p = 97\<rparr> (Some (100, 6)) = Inr True
   \<and> point_add \<lparr>curve_a = 2, curve_b = 3, curve_p = 97\<rparr> (Some (3, 6)) (Some (100, 6))
       = Inl ValueError
   \<and> point_add \<lparr>curve_a = 2, curve_b = 3, curve_p = 97\<rparr> (Some (100, 6)) (Some (3, 6))
       = Inl ValueError
   \<and> is_on_curve \<lparr>curve_a = 2, curve_b = 3, curve_p = 97\<rparr> (Some (96, 97)) = Inr True
   \<and> scalar_multiply \<lparr>curve_a = 2, curve_b = 3, curve_p = 97\<rparr> 2 (Some (96, 97))
       = Inl ValueError"
  by (simp add: is_on_curve_def point_add_def slope_operands_def mod_inverse_def
        extended_gcd.simps scalar_multiply_def scalar_multiply_steps_def
        binary_digits.simps Let_def)

theorem point_add_inverts_nonzero_only_witness:
  "odd_prime (curve_p \<lparr>curve_a = 2, curve_b = 3, curve_p = 97\<rparr>)
   \<and> in_range \<lparr>curve_a = 2, curve_b = 3, curve_p = 97\<rparr> (Some (3, 6))
   \<and> in_range \<lparr>curve_a = 2, curve_b = 3, curve_p = 97\<rparr> (Some (80, 10))
   \<and> slope_operands \<lparr>curve_a = 2, curve_b = 3, curve_p = 97\<rparr> (3, 6) (80, 10) = Some (4, 77)
   \<and> (77::int) mod 97 \<noteq> 0
   \<and> (\<exists>i. mod_inverse 77 97 = Inr i)
   \<and> (\<exists>R. point_add \<lparr>curve_a = 2, curve_b = 3, curve_p = 97\<rparr> (Some (3, 6)) (Some (80, 10))
            = Inr R)"
proof -
  let ?cv = "\<lparr>curve_a = 2, curve_b = 3, curve_p = 97\<rparr>"
  have op: "odd_prime (curve_p ?cv)" by (simp add: odd_prime_97)
  have r: "in_range ?cv (Some (3, 6))" "in_range ?cv (Some (80, 10))"
    by (simp_all add: in_range_def)
  have so: "slope_operands ?cv (3, 6) (80, 10) = Some (4, 77)"
    by (simp add: slope_operands_def)
  from point_add_inverts_nonzero_only [OF op r] so
  have "(77::int) mod 97 \<noteq> 0 \<and> (\<exists>i. mod_inverse 77 97 = Inr i)
      \<and> (\<exists>R. point_add ?cv (Some (3, 6)) (Some (80, 10)) = Inr R)"
    by simp
  with op r so show ?thesis by simp
qed

text \<open>
  Claim C6 as stated fails: on the curve \<open>y^2 = x^3 + x + 1\<close> modulo the prime 2 the
  point \<open>(1, 1)\<close> is on the curve and doubling it asks for the inverse of
  \<open>2 * 1 mod 2 = 0\<close>; modulo 97 the pair \<open>(96, 97)\<close> passes \<open>is_on_curve\<close> and doubling
  it asks for the inverse of \<open>2 * 97 mod 97 = 0\<close>. Both calls raise the \<open>ValueError\<close> of
  \<open>mod_inverse\<close>.
\<close>

theorem point_add_no_inverse_counterexample:
  "point_add \<lparr>curve_a = 1, curve_b = 1, curve_p = 2\<rparr> (Some (1, 1)) (Some (1, 1))
     = Inl ValueError
   \<and> is_on_curve \<lparr>curve_a = 1, curve_b = 1, curve_p = 2\<rparr> (Some (1, 1)) = Inr True
   \<and> point_add \<lparr>curve_a = 2, curve_b = 3, curve_p = 97\<rparr> (Some (96, 97)) (Some (96, 97))
     = Inl ValueError
   \<and> is_on_curve \<lparr>curve_a = 2, curve_b = 3, curve_p = 97\<rparr> (Some (96, 97)) = Inr True"
  by (simp add: point_add_def slope_operands_def mod_inverse_def extended_gcd.simps
        is_on_curve_def Let_def)

end
